theory Spec2Isabelle
  imports Main "HOL-Library.Sublist"
begin

section \<open>Strings and frames\<close>

text \<open>
  \<open>String.prototype.includes\<close>: the needle occurs somewhere in the line. The empty needle
  occurs in every string.
\<close>

fun str_includes :: "string \<Rightarrow> string \<Rightarrow> bool" where
  "str_includes [] needle = (needle = [])"
| "str_includes (c # cs) needle = (prefix needle (c # cs) \<or> str_includes cs needle)"

text \<open>
  A frame handed to \<open>WebSocket.send\<close> is \<open>JSON.stringify\<close> of an object literal. The model
  keeps the object (fields in the order of the literal); the serialisation to text is not
  modelled.
\<close>

datatype json = JStr string | JNum int | JBool bool | JObj "(string \<times> json) list"

section \<open>The WebSocket clients (\<open>TerminalWebSocket\<close>, \<open>UIRefinementsWebSocket\<close>)\<close>

text \<open>
  The two classes differ in the URL they open, in how \<open>onmessage\<close> dispatches, and in
  \<open>spawnAgent\<close>, which only the session client has. \<open>Task n\<close> stands for a
  \<open>TerminalWebSocket\<close> on \<open>/ws/tasks/n/terminal\<close>, \<open>Session s\<close> for a
  \<open>UIRefinementsWebSocket\<close> on \<open>/ws/ui-refinements/s\<close>.
\<close>

datatype target = Task int | Session string

datatype ready_state = CONNECTING | OPEN | CLOSING | CLOSED

datatype js_error = InvalidStateError | SyntaxError

record web_socket =
  url :: target
  readyState :: ready_state
  outbox :: "json list"

text \<open>
  Messages of the server (\<open>WsMessage\<close>, \<open>SessionWsMessage\<close>). \<open>Unrecognised\<close> is any
  other JSON value: \<open>JSON.parse\<close> accepts it and the cast does not check it.
\<close>

datatype ws_message =
    Output string bool
  | Connected target bool
  | ErrorMessage string
  | Spawned int
  | Unrecognised

datatype callback = OnMessage ws_message | OnClose | OnConnect bool

text \<open>
  \<open>ws\<close> is a reference into \<open>sockets\<close>, the \<open>WebSocket\<close> objects this client has
  created (their handlers stay bound to the client after \<open>this.ws\<close> moves on);
  \<open>timers\<close> are the pending \<open>setTimeout\<close> delays in milliseconds, each of which calls
  \<open>connect()\<close> when it fires.
\<close>

record ws_client =
  ws :: "nat option"
  target :: target
  reconnectAttempts :: nat
  maxReconnectAttempts :: nat
  sockets :: "web_socket list"
  timers :: "nat list"

definition new_client :: "target \<Rightarrow> ws_client" where
  "new_client t =
     \<lparr>ws = None, target = t, reconnectAttempts = 0, maxReconnectAttempts = 5,
      sockets = [], timers = []\<rparr>"

definition new_socket :: "target \<Rightarrow> web_socket" where
  "new_socket t = \<lparr>url = t, readyState = CONNECTING, outbox = []\<rparr>"

text \<open>\<open>this.ws?.readyState === WebSocket.OPEN\<close>\<close>

definition isConnected :: "ws_client \<Rightarrow> bool" where
  "isConnected c =
     (case ws c of
        None \<Rightarrow> False
      | Some i \<Rightarrow> i < length (sockets c) \<and> readyState (sockets c ! i) = OPEN)"

definition connect :: "ws_client \<Rightarrow> ws_client" where
  "connect c =
     (if isConnected c then c
      else c\<lparr>sockets := sockets c @ [new_socket (target c)],
             ws := Some (length (sockets c))\<rparr>)"

definition onopen :: "ws_client \<Rightarrow> ws_client" where
  "onopen c = c\<lparr>reconnectAttempts := 0\<rparr>"

text \<open>
  \<open>onmessage\<close>: \<open>None\<close> is a payload on which \<open>JSON.parse\<close> throws; the \<open>catch\<close> logs it
  and no callback runs.
\<close>

definition onmessage :: "ws_client \<Rightarrow> ws_message option \<Rightarrow> callback list" where
  "onmessage c data =
     (case data of
        None \<Rightarrow> []
      | Some msg \<Rightarrow>
          (case target c of
             Task _ \<Rightarrow> [OnMessage msg]
           | Session _ \<Rightarrow>
               (case msg of
                  Connected _ running \<Rightarrow> [OnConnect running]
                | _ \<Rightarrow> [OnMessage msg])))"

definition reconnect_delay :: "nat \<Rightarrow> nat" where
  "reconnect_delay attempts = 1000 * attempts"

definition onclose :: "ws_client \<Rightarrow> callback list \<times> ws_client" where
  "onclose c =
     ([OnClose],
      if reconnectAttempts c < maxReconnectAttempts c
      then c\<lparr>reconnectAttempts := reconnectAttempts c + 1,
             timers := timers c @ [reconnect_delay (reconnectAttempts c + 1)]\<rparr>
      else c)"

text \<open>
  \<open>WebSocket.send\<close> throws \<open>InvalidStateError\<close> while the socket is connecting, queues
  the frame when it is open, and drops it once the socket is closing or closed.
\<close>

definition socket_send :: "web_socket \<Rightarrow> json \<Rightarrow> js_error + web_socket" where
  "socket_send s frame =
     (case readyState s of
        CONNECTING \<Rightarrow> Inl InvalidStateError
      | OPEN \<Rightarrow> Inr (s\<lparr>outbox := outbox s @ [frame]\<rparr>)
      | _ \<Rightarrow> Inr s)"

text \<open>
  \<open>if (this.ws?.readyState === WebSocket.OPEN) this.ws.send(JSON.stringify(obj))\<close>, the
  body shared by \<open>sendInput\<close>, \<open>sendKill\<close> and \<open>spawnAgent\<close>.
\<close>

definition send_if_open :: "ws_client \<Rightarrow> json \<Rightarrow> js_error + ws_client" where
  "send_if_open c frame =
     (if isConnected c
      then (case socket_send (sockets c ! the (ws c)) frame of
              Inl e \<Rightarrow> Inl e
            | Inr s \<Rightarrow> Inr (c\<lparr>sockets := (sockets c)[the (ws c) := s]\<rparr>))
      else Inr c)"

definition sendInput :: "ws_client \<Rightarrow> string \<Rightarrow> js_error + ws_client" where
  "sendInput c data = send_if_open c (JObj [(''type'', JStr ''input''), (''data'', JStr data)])"

definition sendKill :: "ws_client \<Rightarrow> js_error + ws_client" where
  "sendKill c = send_if_open c (JObj [(''type'', JStr ''kill'')])"

definition spawnAgent :: "ws_client \<Rightarrow> string \<Rightarrow> string \<Rightarrow> string \<Rightarrow> js_error + ws_client" where
  "spawnAgent c prompt agent worktreePath =
     send_if_open c
       (JObj [(''type'', JStr ''spawn''), (''prompt'', JStr prompt), (''agent'', JStr agent),
              (''worktree_path'', JStr worktreePath)])"

text \<open>
  \<open>WebSocket.close()\<close> moves a connecting or open socket to \<open>CLOSING\<close>; the close event
  comes later. On a closing or closed socket it does nothing.
\<close>

definition socket_close :: "web_socket \<Rightarrow> web_socket" where
  "socket_close s =
     (if readyState s = CONNECTING \<or> readyState s = OPEN then s\<lparr>readyState := CLOSING\<rparr> else s)"

definition disconnect :: "ws_client \<Rightarrow> ws_client" where
  "disconnect c =
     (let c1 = c\<lparr>maxReconnectAttempts := 0\<rparr>;
          c2 = (case ws c1 of
                  None \<Rightarrow> c1
                | Some i \<Rightarrow>
                    if i < length (sockets c1)
                    then c1\<lparr>sockets := (sockets c1)[i := socket_close (sockets c1 ! i)]\<rparr>
                    else c1)
      in c2\<lparr>ws := None\<rparr>)"

subsection \<open>The browser around a client\<close>

text \<open>
  What the browser does to a client: it fires an event on one of the client's sockets, or a
  pending timer fires. The browser opens only a connecting socket, delivers messages only
  on an open one and closes a socket once; a timer that fires leaves the list and runs
  \<open>connect()\<close>.
\<close>

datatype browser_event =
    SocketOpen nat
  | SocketMessage nat "ws_message option"
  | SocketError nat
  | SocketClose nat
  | TimerFire nat

definition set_ready :: "ws_client \<Rightarrow> nat \<Rightarrow> ready_state \<Rightarrow> ws_client" where
  "set_ready c i r = c\<lparr>sockets := (sockets c)[i := (sockets c ! i)\<lparr>readyState := r\<rparr>]\<rparr>"

fun browser_step :: "browser_event \<Rightarrow> ws_client \<Rightarrow> callback list \<times> ws_client" where
  "browser_step (SocketOpen i) c =
     (if i < length (sockets c) \<and> readyState (sockets c ! i) = CONNECTING
      then ([], onopen (set_ready c i OPEN)) else ([], c))"
| "browser_step (SocketMessage i data) c =
     (if i < length (sockets c) \<and> readyState (sockets c ! i) = OPEN
      then (onmessage c data, c) else ([], c))"
| "browser_step (SocketError i) c = ([], c)"
| "browser_step (SocketClose i) c =
     (if i < length (sockets c) \<and> readyState (sockets c ! i) \<noteq> CLOSED
      then onclose (set_ready c i CLOSED) else ([], c))"
| "browser_step (TimerFire k) c =
     (if k < length (timers c)
      then ([], connect (c\<lparr>timers := take k (timers c) @ drop (Suc k) (timers c)\<rparr>))
      else ([], c))"

text \<open>
  The owner of a client calls its methods between the browser's events. A method that
  throws leaves the client as it was.
\<close>

datatype ws_event =
    CallConnect
  | CallDisconnect
  | CallSendInput string
  | CallSendKill
  | CallSpawnAgent string string string
  | Browser browser_event

definition or_unchanged :: "ws_client \<Rightarrow> js_error + ws_client \<Rightarrow> ws_client" where
  "or_unchanged c r = (case r of Inl _ \<Rightarrow> c | Inr c' \<Rightarrow> c')"

fun ws_step :: "ws_event \<Rightarrow> ws_client \<Rightarrow> ws_client" where
  "ws_step CallConnect c = connect c"
| "ws_step CallDisconnect c = disconnect c"
| "ws_step (CallSendInput d) c = or_unchanged c (sendInput c d)"
| "ws_step CallSendKill c = or_unchanged c (sendKill c)"
| "ws_step (CallSpawnAgent p a w) c = or_unchanged c (spawnAgent c p a w)"
| "ws_step (Browser b) c = snd (browser_step b c)"

fun ws_run :: "ws_event list \<Rightarrow> ws_client \<Rightarrow> ws_client" where
  "ws_run [] c = c"
| "ws_run (e # es) c = ws_run es (ws_step e c)"

text \<open>
  Modelled from the spec: the reconnect policy the specification names, an exponential
  delay, \<open>base\<close> for the first attempt and multiplied by \<open>factor\<close> for each further
  one. It is here to be compared with \<open>reconnect_delay\<close>, the policy of the code.
\<close>

definition exponential_backoff :: "nat \<Rightarrow> nat \<Rightarrow> nat \<Rightarrow> nat" where
  "exponential_backoff base factor attempt = base * factor ^ (attempt - 1)"

section \<open>The terminal component (\<open>Terminal.svelte\<close>)\<close>

text \<open>
  \<open>written\<close> collects what the component hands to xterm: \<open>terminal.write(s)\<close> adds
  \<open>s\<close>, \<open>terminal.writeln(s)\<close> adds \<open>s\<close> followed by a line break.
\<close>

record terminal_view =
  connected :: bool
  isRunning :: bool
  written :: "string list"

definition esc :: string where
  "esc = [CHR 0x1B]"

definition crlf :: string where
  "crlf = [CHR 0x0D, CHR 0x0A]"

definition term_write :: "terminal_view \<Rightarrow> string \<Rightarrow> terminal_view" where
  "term_write v s = v\<lparr>written := written v @ [s]\<rparr>"

definition term_writeln :: "terminal_view \<Rightarrow> string \<Rightarrow> terminal_view" where
  "term_writeln v s = term_write v (s @ crlf)"

fun handleMessage :: "terminal_view \<Rightarrow> ws_message \<Rightarrow> terminal_view" where
  "handleMessage v (Connected _ running) =
     (let v1 = v\<lparr>connected := True, isRunning := running\<rparr>;
          v2 = term_writeln v1 (esc @ ''[32m[Connected to terminal]'' @ esc @ ''[0m'')
      in if \<not> running
         then term_writeln v2 (esc @ ''[33m[Process is not running]'' @ esc @ ''[0m'')
         else v2)"
| "handleMessage v (Output ln err) =
     (let v1 = (if str_includes ln ''Process exited with code'' then v\<lparr>isRunning := False\<rparr>
                else if \<not> isRunning v then v\<lparr>isRunning := True\<rparr>
                else v)
      in if err then term_write v1 (esc @ ''[31m'' @ ln @ esc @ ''[0m'' @ crlf)
         else term_write v1 (ln @ crlf))"
| "handleMessage v (ErrorMessage m) =
     term_writeln v (esc @ ''[31m[Error: '' @ m @ '']'' @ esc @ ''[0m'')"
| "handleMessage v _ = v"

text \<open>
  The component owns one \<open>TerminalWebSocket\<close>, created and connected in \<open>onMount\<close> with
  \<open>handleMessage\<close> as \<open>onMessage\<close> and \<open>connected = false\<close> as \<open>onClose\<close>.
\<close>

definition terminal_mount :: "int \<Rightarrow> terminal_view \<times> ws_client" where
  "terminal_mount taskId =
     (\<lparr>connected = False, isRunning = False, written = []\<rparr>, connect (new_client (Task taskId)))"

fun terminal_callback :: "terminal_view \<Rightarrow> callback \<Rightarrow> terminal_view" where
  "terminal_callback v (OnMessage msg) = handleMessage v msg"
| "terminal_callback v OnClose = v\<lparr>connected := False\<rparr>"
| "terminal_callback v (OnConnect _) = v"

definition terminal_on_browser ::
  "browser_event \<Rightarrow> terminal_view \<times> ws_client \<Rightarrow> terminal_view \<times> ws_client" where
  "terminal_on_browser b vc =
     (foldl terminal_callback (fst vc) (fst (browser_step b (snd vc))),
      snd (browser_step b (snd vc)))"

section \<open>The UI-refinement page (\<open>routes/ui-refinements/+page.svelte\<close>)\<close>

datatype role = User | Assistant

datatype chat_status = Pending | Processing | Completed | Failed

datatype agent_type = Claude | Codex | Gemini

fun agent_name :: "agent_type \<Rightarrow> string" where
  "agent_name Claude = ''claude''"
| "agent_name Codex = ''codex''"
| "agent_name Gemini = ''gemini''"

text \<open>
  \<open>ElementMetadata\<close>. Its \<open>id\<close> is \<open>el_id\<close> here; \<open>boundingRect\<close>, four
  floating-point numbers that the page carries along and never reads, is left out.
\<close>

record element_metadata =
  tagName :: string
  el_id :: "string option"
  classList :: "string list"
  attributes :: "(string \<times> string) list"
  textContent :: "string option"
  xpath :: string
  cssSelector :: string

record chat_message =
  msg_id :: string
  role :: role
  content :: string
  timestamp :: nat
  elementContext :: "element_metadata option"
  chat_status :: chat_status

record queued_message =
  q_id :: string
  q_content :: string
  q_elementContext :: "element_metadata option"
  queuePosition :: nat

text \<open>
  \<open>crypto.randomUUID()\<close> is the page's only source of identifiers: \<open>uuidSource\<close> is the
  sequence of values it will return and \<open>uuidCalls\<close> the number of calls made so far.
  \<open>Date.now()\<close> is the argument \<open>now\<close> of each handler.
\<close>

record page =
  branchCreated :: bool
  currentBranch :: "string option"
  sessionId :: "string option"
  wsClient :: "ws_client option"
  targetRepoPath :: string
  messages :: "chat_message list"
  messageQueue :: "queued_message list"
  isProcessing :: bool
  selectedAgent :: agent_type
  currentAssistantMessageId :: "string option"
  selectedElement :: "element_metadata option"
  uuidSource :: "nat \<Rightarrow> string"
  uuidCalls :: nat

definition initial_page :: "(nat \<Rightarrow> string) \<Rightarrow> page" where
  "initial_page src =
     \<lparr>branchCreated = False, currentBranch = None, sessionId = None, wsClient = None,
      targetRepoPath = [], messages = [], messageQueue = [], isProcessing = False,
      selectedAgent = Claude, currentAssistantMessageId = None, selectedElement = None,
      uuidSource = src, uuidCalls = 0\<rparr>"

definition randomUUID :: "page \<Rightarrow> string" where
  "randomUUID p = uuidSource p (uuidCalls p)"

definition uuid_taken :: "page \<Rightarrow> page" where
  "uuid_taken p = p\<lparr>uuidCalls := Suc (uuidCalls p)\<rparr>"

definition nl :: string where
  "nl = [CHR 0x0A]"

text \<open>JavaScript truthiness of an optional string: defined and not empty.\<close>

definition truthy :: "string option \<Rightarrow> bool" where
  "truthy s = (case s of None \<Rightarrow> False | Some v \<Rightarrow> v \<noteq> [])"

fun join :: "string \<Rightarrow> string list \<Rightarrow> string" where
  "join sep [] = []"
| "join sep [x] = x"
| "join sep (x # y # ys) = x @ sep @ join sep (y # ys)"

definition buildPrompt :: "chat_message \<Rightarrow> string" where
  "buildPrompt message =
     (case elementContext message of
        None \<Rightarrow> content message
      | Some ctx \<Rightarrow>
          content message @ nl @ nl @ ''[Element Context]'' @ nl @ ''Tag: '' @ tagName ctx
          @ (if truthy (el_id ctx) then nl @ ''ID: '' @ the (el_id ctx) else [])
          @ (if classList ctx \<noteq> [] then nl @ ''Classes: '' @ join '' '' (classList ctx) else [])
          @ (if cssSelector ctx \<noteq> [] then nl @ ''CSS Selector: '' @ cssSelector ctx else [])
          @ (if truthy (textContent ctx) then nl @ ''Text Content: '' @ the (textContent ctx)
             else []))"

text \<open>
  \<open>processMessage\<close> has no \<open>await\<close>, so it runs to its end inside the handler that calls
  it. Its fallback branch calls \<open>processNextInQueue\<close>, which calls it back with a shorter
  queue.
\<close>

function processMessage :: "nat \<Rightarrow> page \<Rightarrow> chat_message \<Rightarrow> page"
  and processNextInQueue :: "nat \<Rightarrow> page \<Rightarrow> page" where
  "processMessage now p message =
     (if wsClient p = None \<or> targetRepoPath p = []
      then processNextInQueue now
             ((uuid_taken p)
                \<lparr>messages := messages p @
                   [\<lparr>msg_id = randomUUID p, role = Assistant,
                     content = ''Error: Not connected to backend or no target repository configured.'',
                     timestamp = now, elementContext = None, chat_status = Failed\<rparr>],
                 isProcessing := False\<rparr>)
      else (uuid_taken p)
             \<lparr>currentAssistantMessageId := Some (randomUUID p),
              messages := messages p @
                [\<lparr>msg_id = randomUUID p, role = Assistant, content = [], timestamp = now,
                  elementContext = None, chat_status = Processing\<rparr>],
              wsClient :=
                Some (or_unchanged (the (wsClient p))
                        (spawnAgent (the (wsClient p)) (buildPrompt message)
                           (agent_name (selectedAgent p)) (targetRepoPath p)))\<rparr>)"
| "processNextInQueue now p =
     (case messageQueue p of
        [] \<Rightarrow> p
      | next # rest \<Rightarrow>
          processMessage now
            (p\<lparr>messageQueue := rest, isProcessing := True,
               messages := messages p @
                 [\<lparr>msg_id = q_id next, role = User, content = q_content next, timestamp = now,
                   elementContext = q_elementContext next, chat_status = Processing\<rparr>]\<rparr>)
            \<lparr>msg_id = q_id next, role = User, content = q_content next, timestamp = now,
             elementContext = q_elementContext next, chat_status = Processing\<rparr>)"
  by pat_completeness auto
termination
  by (relation "measure (\<lambda>x. case x of
          Inl (now, p, m) \<Rightarrow> 2 * length (messageQueue p) + 1
        | Inr (now, p) \<Rightarrow> 2 * length (messageQueue p))")
     (auto simp: uuid_taken_def)

declare processMessage.simps [simp del] processNextInQueue.simps [simp del]

definition handleSendMessage :: "nat \<Rightarrow> page \<Rightarrow> string \<Rightarrow> page" where
  "handleSendMessage now p text =
     (let messageId = randomUUID p;
          p0 = uuid_taken p;
          newMessage = \<lparr>msg_id = messageId, role = User, content = text, timestamp = now,
                        elementContext = selectedElement p0, chat_status = Pending\<rparr>;
          p1 = (if isProcessing p0
                then p0\<lparr>messageQueue := messageQueue p0 @
                         [\<lparr>q_id = messageId, q_content = text,
                           q_elementContext = selectedElement p0,
                           queuePosition = length (messageQueue p0) + 1\<rparr>]\<rparr>
                else processMessage now
                       (p0\<lparr>isProcessing := True,
                           messages := messages p0 @ [newMessage\<lparr>chat_status := Processing\<rparr>]\<rparr>)
                       newMessage)
      in p1\<lparr>selectedElement := None\<rparr>)"

definition update_current ::
  "(chat_message \<Rightarrow> chat_message) \<Rightarrow> page \<Rightarrow> page" where
  "update_current f p =
     (case currentAssistantMessageId p of
        None \<Rightarrow> p
      | Some a \<Rightarrow> p\<lparr>messages := map (\<lambda>m. if msg_id m = a then f m else m) (messages p)\<rparr>)"

fun handleWsMessage :: "nat \<Rightarrow> page \<Rightarrow> ws_message \<Rightarrow> page" where
  "handleWsMessage now p (Output ln err) =
     (let p1 = update_current (\<lambda>m. m\<lparr>content := content m @ ln @ nl\<rparr>) p
      in if str_includes ln ''[Process exited with code''
         then processNextInQueue now
                ((update_current (\<lambda>m. m\<lparr>chat_status := Completed\<rparr>) p1)
                   \<lparr>currentAssistantMessageId := None, isProcessing := False\<rparr>)
         else p1)"
| "handleWsMessage now p (ErrorMessage message) =
     processNextInQueue now
       ((update_current
           (\<lambda>m. m\<lparr>content := content m @ nl @ ''Error: '' @ message, chat_status := Failed\<rparr>) p)
          \<lparr>currentAssistantMessageId := None, isProcessing := False\<rparr>)"
| "handleWsMessage now p _ = p"

definition handleCancelQueue :: "page \<Rightarrow> string \<Rightarrow> page" where
  "handleCancelQueue p messageId =
     p\<lparr>messageQueue := filter (\<lambda>m. q_id m \<noteq> messageId) (messageQueue p)\<rparr>"

definition handleBranchCreate :: "page \<Rightarrow> string \<Rightarrow> page" where
  "handleBranchCreate p branchName =
     (uuid_taken p)
       \<lparr>currentBranch := Some branchName, branchCreated := True,
        sessionId := Some (randomUUID p),
        wsClient := Some (connect (new_client (Session (randomUUID p))))\<rparr>"

text \<open>
  The page's callbacks on its client: \<open>handleWsMessage\<close> for \<open>onMessage\<close>; \<open>handleWsClose\<close>
  and \<open>handleWsConnect\<close> only log.
\<close>

fun page_callback :: "nat \<Rightarrow> page \<Rightarrow> callback \<Rightarrow> page" where
  "page_callback now p (OnMessage msg) = handleWsMessage now p msg"
| "page_callback now p OnClose = p"
| "page_callback now p (OnConnect _) = p"

text \<open>
  What happens to the page: the user acts on it, the settings request of \<open>onMount\<close>
  answers, or the browser fires an event on the page's client.
\<close>

datatype page_event =
    BranchCreate string
  | SettingsLoaded string
  | SendMessage nat string
  | CancelQueue string
  | ElementSelect element_metadata
  | ClearElement
  | AgentChange agent_type
  | ClientEvent nat browser_event

fun page_step :: "page_event \<Rightarrow> page \<Rightarrow> page" where
  "page_step (BranchCreate b) p = handleBranchCreate p b"
| "page_step (SettingsLoaded path) p = (if path \<noteq> [] then p\<lparr>targetRepoPath := path\<rparr> else p)"
| "page_step (SendMessage now text) p = handleSendMessage now p text"
| "page_step (CancelQueue i) p = handleCancelQueue p i"
| "page_step (ElementSelect e) p = p\<lparr>selectedElement := Some e\<rparr>"
| "page_step ClearElement p = p\<lparr>selectedElement := None\<rparr>"
| "page_step (AgentChange a) p = p\<lparr>selectedAgent := a\<rparr>"
| "page_step (ClientEvent now b) p =
     (case wsClient p of
        None \<Rightarrow> p
      | Some c \<Rightarrow>
          foldl (page_callback now) (p\<lparr>wsClient := Some (snd (browser_step b c))\<rparr>)
            (fst (browser_step b c)))"

fun page_run :: "page_event list \<Rightarrow> page \<Rightarrow> page" where
  "page_run [] p = p"
| "page_run (e # es) p = page_run es (page_step e p)"

text \<open>
  Three observations of a page: the user messages whose processing has started, in the
  order it started; the messages still waiting; and the spawn requests the page has put on
  its sockets.
\<close>

definition started :: "page \<Rightarrow> string list" where
  "started p = map msg_id (filter (\<lambda>m. role m = User) (messages p))"

definition waiting :: "page \<Rightarrow> string list" where
  "waiting p = map q_id (messageQueue p)"

fun is_spawn_frame :: "json \<Rightarrow> bool" where
  "is_spawn_frame (JObj ((k, JStr t) # _)) = (k = ''type'' \<and> t = ''spawn'')"
| "is_spawn_frame _ = False"

definition spawn_frames :: "ws_client \<Rightarrow> nat" where
  "spawn_frames c = length (filter is_spawn_frame (concat (map outbox (sockets c))))"

definition spawns_sent :: "page \<Rightarrow> nat" where
  "spawns_sent p = (case wsClient p of None \<Rightarrow> 0 | Some c \<Rightarrow> spawn_frames c)"

text \<open>A message of the server that ends the current agent run, as the page reads it.\<close>

fun is_completion :: "ws_message \<Rightarrow> bool" where
  "is_completion (Output ln _) = str_includes ln ''[Process exited with code''"
| "is_completion (ErrorMessage _) = True"
| "is_completion _ = False"

fun completion_event :: "page_event \<Rightarrow> bool" where
  "completion_event (ClientEvent _ (SocketMessage _ (Some m))) = is_completion m"
| "completion_event _ = False"

definition completions :: "page_event list \<Rightarrow> nat" where
  "completions evs = length (filter completion_event evs)"

fun is_cancel :: "page_event \<Rightarrow> bool" where
  "is_cancel (CancelQueue _) = True"
| "is_cancel _ = False"

text \<open>
  More observations of a run: the identifiers given to the messages sent along it, in the
  order they were sent, and the assistant messages that are in the processing state.
\<close>

fun sent_by :: "page_event \<Rightarrow> page \<Rightarrow> string list" where
  "sent_by (SendMessage _ _) p = [randomUUID p]"
| "sent_by _ p = []"

fun sent_ids :: "page_event list \<Rightarrow> page \<Rightarrow> string list" where
  "sent_ids [] p = []"
| "sent_ids (e # es) p = sent_by e p @ sent_ids es (page_step e p)"

definition processing_replies :: "page \<Rightarrow> chat_message list" where
  "processing_replies p =
     filter (\<lambda>m. role m = Assistant \<and> chat_status m = Processing) (messages p)"

text \<open>
  How the page keeps track of the reply it is waiting for: every assistant message in the
  processing state is the one \<open>currentAssistantMessageId\<close> names, there is at most one,
  and a page that names one is processing.
\<close>

definition reply_tracked :: "page \<Rightarrow> bool" where
  "reply_tracked p =
     ((currentAssistantMessageId p \<noteq> None \<or> processing_replies p = []) \<and>
      length (processing_replies p) \<le> 1 \<and>
      (currentAssistantMessageId p = None \<or> isProcessing p) \<and>
      list_all (\<lambda>m. Some (msg_id m) = currentAssistantMessageId p) (processing_replies p))"

text \<open>
  A run to try the page on: the settings arrive, the branch is created, the socket opens,
  and three messages are sent in a row.
\<close>

definition demo_uuids :: "nat \<Rightarrow> string" where
  "demo_uuids n = replicate (Suc n) (CHR ''u'')"

definition demo_events :: "page_event list" where
  "demo_events =
     [SettingsLoaded ''/repo'', BranchCreate ''ui'', ClientEvent 0 (SocketOpen 0),
      SendMessage 1 ''first'', SendMessage 2 ''second'', SendMessage 3 ''third'']"

definition demo_page :: page where
  "demo_page = page_run demo_events (initial_page demo_uuids)"

definition demo_first_events :: "page_event list" where
  "demo_first_events =
     [SettingsLoaded ''/repo'', BranchCreate ''ui'', ClientEvent 0 (SocketOpen 0),
      SendMessage 1 ''first'']"

definition demo_first_page :: page where
  "demo_first_page = page_run demo_first_events (initial_page demo_uuids)"

section \<open>The API client (\<open>lib/api/client.ts\<close>)\<close>

text \<open>
  A \<open>Response\<close> as \<open>handleResponse\<close> reads it: the \<open>ok\<close> flag, the numeric status, the
  status text, and the outcomes of \<open>response.text()\<close> and \<open>response.json()\<close>, each of
  which can reject.
\<close>

record 'a response =
  ok :: bool
  resp_status :: nat
  statusText :: string
  body_text :: "js_error + string"
  body_json :: "js_error + 'a"

text \<open>
  What \<open>handleResponse\<close> throws: an \<open>ApiError\<close> with its \<open>status\<close> and \<open>message\<close>, or
  the rejection of the body read.
\<close>

datatype thrown = ApiError nat string | Rejected js_error

definition handleResponse :: "'a response \<Rightarrow> thrown + 'a" where
  "handleResponse r =
     (if \<not> ok r
      then (case body_text r of
              Inl e \<Rightarrow> Inl (Rejected e)
            | Inr t \<Rightarrow> Inl (ApiError (resp_status r) (if t \<noteq> [] then t else statusText r)))
      else (case body_json r of
              Inl e \<Rightarrow> Inl (Rejected e)
            | Inr v \<Rightarrow> Inr v))"

section \<open>The settings store (\<open>lib/stores/settings.svelte.ts\<close>)\<close>

text \<open>
  \<open>settings\<close> and \<open>defaults\<close> are plain objects used as \<open>Record<string, string>\<close>. The
  model keeps an object's own entries as a map; what a read finds beyond them comes from
  \<open>Object.prototype\<close>, which every plain object inherits from.
\<close>

record settings_store =
  settings :: "string \<rightharpoonup> string"
  loading :: bool
  error :: "string option"
  dirty :: bool

definition defaults :: "string \<rightharpoonup> string" where
  "defaults =
     map_of
       [(''parallel_limit'', ''1''),
        (''trigger_status'', ''Ready for Dev''),
        (''target_status'', ''In Development''),
        (''target_repo_path'', []),
        (''dev_branch'', ''dev''),
        (''clickup_workspace_id'', []),
        (''clickup_space_id'', []),
        (''clickup_folder_id'', []),
        (''clickup_list_id'', [])]"

text \<open>
  What a property read can give: a string (an own entry), one of the functions of
  \<open>Object.prototype\<close>, or the object \<open>Object.prototype\<close> itself (through \<open>__proto__\<close>).
\<close>

datatype js_value = JsString string | JsFunction string | JsObjectPrototype

text \<open>The properties of \<open>Object.prototype\<close>, by name.\<close>

definition object_prototype :: "string \<rightharpoonup> js_value" where
  "object_prototype =
     map_of
       [(''constructor'', JsFunction ''Object''),
        (''hasOwnProperty'', JsFunction ''hasOwnProperty''),
        (''isPrototypeOf'', JsFunction ''isPrototypeOf''),
        (''propertyIsEnumerable'', JsFunction ''propertyIsEnumerable''),
        (''toLocaleString'', JsFunction ''toLocaleString''),
        (''toString'', JsFunction ''toString''),
        (''valueOf'', JsFunction ''valueOf''),
        (''__defineGetter__'', JsFunction ''__defineGetter__''),
        (''__defineSetter__'', JsFunction ''__defineSetter__''),
        (''__lookupGetter__'', JsFunction ''__lookupGetter__''),
        (''__lookupSetter__'', JsFunction ''__lookupSetter__''),
        (''__proto__'', JsObjectPrototype)]"

text \<open>
  \<open>obj[key]\<close>: the own entry when there is one, otherwise what \<open>Object.prototype\<close> has
  under that name, otherwise \<open>undefined\<close> (\<open>None\<close>).
\<close>

definition property_read :: "(string \<rightharpoonup> string) \<Rightarrow> string \<Rightarrow> js_value option" where
  "property_read obj key =
     (case obj key of Some v \<Rightarrow> Some (JsString v) | None \<Rightarrow> object_prototype key)"

text \<open>The operator \<open>??\<close>: the right operand when the left one is \<open>undefined\<close>.\<close>

definition nullish :: "'a option \<Rightarrow> 'a option \<Rightarrow> 'a option" where
  "nullish a b = (case a of None \<Rightarrow> b | Some v \<Rightarrow> Some v)"

text \<open>\<open>get\<close> of \<open>useSettings()\<close>; \<open>None\<close> would be a result of \<open>undefined\<close>.\<close>

definition settings_get :: "settings_store \<Rightarrow> string \<Rightarrow> js_value option" where
  "settings_get s key =
     nullish (property_read (settings s) key)
       (nullish (property_read defaults key) (Some (JsString [])))"

text \<open>
  \<open>obj[key] = value\<close>: an own entry is updated, and a name that is neither own nor
  inherited becomes a new own entry. For a name the object only inherits, what the
  assignment does to the own entries is the runtime's business (the accessor \<open>__proto__\<close>
  ignores a string; the \<open>$state\<close> proxy decides for the others): it is the parameter
  \<open>inherited_write\<close>.
\<close>

definition property_write ::
  "((string \<rightharpoonup> string) \<Rightarrow> string \<Rightarrow> string \<Rightarrow> (string \<rightharpoonup> string)) \<Rightarrow>
   (string \<rightharpoonup> string) \<Rightarrow> string \<Rightarrow> string \<Rightarrow> (string \<rightharpoonup> string)" where
  "property_write inherited_write obj key val =
     (if obj key = None \<and> object_prototype key \<noteq> None then inherited_write obj key val
      else obj(key \<mapsto> val))"

text \<open>\<open>set\<close> of \<open>useSettings()\<close>.\<close>

definition settings_set ::
  "((string \<rightharpoonup> string) \<Rightarrow> string \<Rightarrow> string \<Rightarrow> (string \<rightharpoonup> string)) \<Rightarrow>
   settings_store \<Rightarrow> string \<Rightarrow> string \<Rightarrow> settings_store" where
  "settings_set inherited_write s key val =
     s\<lparr>settings := property_write inherited_write (settings s) key val, dirty := True\<rparr>"

text \<open>\<open>load\<close>, given the outcome of \<open>getSettings()\<close> (\<open>Inl\<close> the message of the error).\<close>

definition settings_load :: "settings_store \<Rightarrow> string + (string \<rightharpoonup> string) \<Rightarrow> settings_store" where
  "settings_load s r =
     (case r of
        Inr m \<Rightarrow> s\<lparr>settings := m, dirty := False, error := None, loading := False\<rparr>
      | Inl msg \<Rightarrow> s\<lparr>settings := defaults, error := Some msg, loading := False\<rparr>)"

section \<open>Tasks on the board and on the task page\<close>

record task =
  task_id :: int
  clickup_task_id :: string
  name :: string
  description :: "string option"
  priority :: "int option"
  status :: string
  worktree_path :: "string option"
  time_spent_ms :: nat
  started_at :: "string option"
  completed_at :: "string option"
  is_running :: bool

text \<open>
  The handlers a \<open>TaskCard\<close> is given (\<open>True\<close>: the property is passed); \<open>KanbanColumn\<close>
  hands its own on unchanged.
\<close>

record handlers =
  onStop :: bool
  onRestart :: bool
  onView :: bool
  onDelete :: bool
  onComplete :: bool

text \<open>The \<open>{#if}\<close> around the Delete button of \<open>TaskCard.svelte\<close>.\<close>

definition card_shows_delete :: "handlers \<Rightarrow> task \<Rightarrow> bool" where
  "card_shows_delete h t =
     (onDelete h \<and> (status t = ''stopped'' \<or> status t = ''failed'' \<or> status t = ''completed''))"

definition getTasksByStatus :: "task list \<Rightarrow> string \<Rightarrow> task list" where
  "getTasksByStatus ts st = filter (\<lambda>t. status t = st) ts"

definition no_handlers :: handlers where
  "no_handlers =
     \<lparr>onStop = False, onRestart = False, onView = False, onDelete = False, onComplete = False\<rparr>"

text \<open>
  The columns of \<open>KanbanBoard.svelte\<close>, each with its tasks and the handlers it passes on;
  the Failed column is rendered only when there is a failed task.
\<close>

definition kanban_columns :: "task list \<Rightarrow> (string \<times> task list \<times> handlers) list" where
  "kanban_columns ts =
     [(''Queue'', getTasksByStatus ts ''queued'', no_handlers\<lparr>onView := True\<rparr>),
      (''In Development'', getTasksByStatus ts ''in_progress'',
         no_handlers\<lparr>onStop := True, onView := True, onComplete := True\<rparr>),
      (''Stopped'', getTasksByStatus ts ''stopped'',
         no_handlers\<lparr>onRestart := True, onView := True, onDelete := True\<rparr>),
      (''Completed'', getTasksByStatus ts ''completed'',
         no_handlers\<lparr>onView := True, onDelete := True\<rparr>)]
     @ (if getTasksByStatus ts ''failed'' \<noteq> []
        then [(''Failed'', getTasksByStatus ts ''failed'',
                 no_handlers\<lparr>onRestart := True, onView := True, onDelete := True\<rparr>)]
        else [])"

text \<open>The cards the board renders, each with whether it shows the Delete button.\<close>

definition board_cards :: "task list \<Rightarrow> (task \<times> bool) list" where
  "board_cards ts =
     concat (map (\<lambda>(title, col, h). map (\<lambda>t. (t, card_shows_delete h t)) col)
               (kanban_columns ts))"

text \<open>The \<open>{#if}\<close> around the Delete button of the task page, inside \<open>{#if task}\<close>.\<close>

definition page_shows_delete :: "task option \<Rightarrow> bool" where
  "page_shows_delete t =
     (case t of
        None \<Rightarrow> False
      | Some t \<Rightarrow> status t = ''stopped'' \<or> status t = ''failed'' \<or> status t = ''completed'')"

section \<open>The process supervisor and the stream gateway\<close>

text \<open>
  Modelled from the spec: the Process Supervisor (section 4.1), whose code is not among the
  sources. It holds at most one live handle per task or session id. On process exit, for
  any cause, it emits one synthetic final output line with the exit code on the output
  stream and then clears the handle; an exit reported for an id without a live handle
  emits nothing. \<open>code\<close> is the exit code as text.
\<close>

record supervisor =
  handles :: "target \<Rightarrow> nat option"
  stream :: "target \<Rightarrow> ws_message list"

text \<open>Modelled from the spec: a task is running iff the supervisor holds a live handle for it.\<close>

definition has_live_handle :: "supervisor \<Rightarrow> target \<Rightarrow> bool" where
  "has_live_handle s i = (handles s i \<noteq> None)"

text \<open>
  Modelled from the spec: the synthetic final line, which contains the exit code and the
  text \<open>Process exited with code\<close>.
\<close>

definition exit_line :: "string \<Rightarrow> string" where
  "exit_line code = ''[Process exited with code '' @ code @ '']''"

text \<open>Modelled from the spec: the exit line goes to the output stream of the id, on stdout.\<close>

definition emit_exit_line :: "supervisor \<Rightarrow> target \<Rightarrow> string \<Rightarrow> supervisor" where
  "emit_exit_line s i code = s\<lparr>stream := (stream s)(i := stream s i @ [Output (exit_line code) False])\<rparr>"

text \<open>Modelled from the spec: clearing the handle of an id.\<close>

definition clear_handle :: "supervisor \<Rightarrow> target \<Rightarrow> supervisor" where
  "clear_handle s i = s\<lparr>handles := (handles s)(i := None)\<rparr>"

text \<open>
  Modelled from the spec: on process exit the supervisor emits the exit line and then
  clears the handle.
\<close>

definition on_process_exit :: "supervisor \<Rightarrow> target \<Rightarrow> string \<Rightarrow> supervisor" where
  "on_process_exit s i code =
     (if has_live_handle s i then clear_handle (emit_exit_line s i code) i else s)"

text \<open>
  Modelled from the spec: the Stream Gateway (section 4.2), whose code is not among the
  sources. On client connect it immediately sends a \<open>connected\<close> message carrying the id
  and the current \<open>is_running\<close> state derived from the Process Supervisor.
\<close>

definition gateway_on_connect :: "supervisor \<Rightarrow> target \<Rightarrow> ws_message" where
  "gateway_on_connect s i = Connected i (has_live_handle s i)"

text \<open>
  Modelled from the spec: \<open>DELETE /tasks/:id\<close> of the backend (sections 4.3 and 7), whose
  code is not among the sources. Delete is only permitted from \<open>stopped\<close>, \<open>failed\<close> or
  \<open>completed\<close>; it removes the task row and its worktree. A disallowed state transition
  is a \<open>ConflictError\<close>, an unknown id a \<open>NotFoundError\<close>.
\<close>

datatype api_error = NotFoundError | ConflictError

record backend =
  rows :: "task list"
  worktrees :: "string list"

text \<open>
  Modelled from the spec: the delete operation, refused with a conflict outside the three
  statuses.
\<close>

definition backend_delete :: "backend \<Rightarrow> int \<Rightarrow> api_error + backend" where
  "backend_delete b i =
     (case find (\<lambda>t. task_id t = i) (rows b) of
        None \<Rightarrow> Inl NotFoundError
      | Some t \<Rightarrow>
          if status t = ''stopped'' \<or> status t = ''failed'' \<or> status t = ''completed''
          then Inr (b\<lparr>rows := filter (\<lambda>r. task_id r \<noteq> i) (rows b),
                      worktrees := filter (\<lambda>w. Some w \<noteq> worktree_path t) (worktrees b)\<rparr>)
          else Inl ConflictError)"

text \<open>
  Modelled from the spec: the inbound messages of the session endpoint (section 6),
  \<open>{type:"input", data}\<close>, \<open>{type:"kill"}\<close> and \<open>{type:"spawn", prompt, agent,
  worktree_path}\<close>, read from a frame by field name.
\<close>

datatype inbound = InInput string | InKill | InSpawn string string string

text \<open>Modelled from the spec: reading an inbound frame of the session endpoint.\<close>

definition session_inbound :: "json \<Rightarrow> inbound option" where
  "session_inbound frame =
     (case frame of
        JObj kvs \<Rightarrow>
          (case map_of kvs ''type'' of
             Some (JStr t) \<Rightarrow>
               if t = ''input''
               then (case map_of kvs ''data'' of Some (JStr d) \<Rightarrow> Some (InInput d) | _ \<Rightarrow> None)
               else if t = ''kill'' then Some InKill
               else if t = ''spawn''
               then (case (map_of kvs ''prompt'', map_of kvs ''agent'',
                           map_of kvs ''worktree_path'') of
                       (Some (JStr p), Some (JStr a), Some (JStr w)) \<Rightarrow> Some (InSpawn p a w)
                     | _ \<Rightarrow> None)
               else None
           | _ \<Rightarrow> None)
      | _ \<Rightarrow> None)"

section \<open>Properties of the WebSocket clients\<close>

lemma isConnected_new_socket [simp]:
  "isConnected (c\<lparr>sockets := sockets c @ [new_socket t], ws := Some (length (sockets c))\<rparr>) = False"
  by (simp add: isConnected_def new_socket_def)

lemma subseq_remove_nth: "subseq (take k xs @ drop (Suc k) xs) xs"
proof -
  have "subseq (drop (Suc k) xs) (drop k xs)"
  proof (cases "k < length xs")
    case True
    then have "drop k xs = xs ! k # drop (Suc k) xs"
      by (simp add: Cons_nth_drop_Suc)
    then show ?thesis
      by (simp add: list_emb_Cons)
  next
    case False
    then show ?thesis by simp
  qed
  then have "subseq (take k xs @ drop (Suc k) xs) (take k xs @ drop k xs)"
    by (intro list_emb_append_mono) simp_all
  then show ?thesis by simp
qed

lemmas ws_defs =
  connect_def disconnect_def Let_def or_unchanged_def sendInput_def sendKill_def spawnAgent_def
  send_if_open_def onopen_def onclose_def set_ready_def socket_send_def socket_close_def

subsection \<open>The attempt counter and the timers along a run\<close>

lemma send_if_open_fields:
  "send_if_open c f = Inr c' \<Longrightarrow>
   maxReconnectAttempts c' = maxReconnectAttempts c \<and>
   reconnectAttempts c' = reconnectAttempts c \<and> timers c' = timers c"
  by (auto simp: send_if_open_def split: if_splits sum.splits)

lemma or_unchanged_fields:
  "maxReconnectAttempts (or_unchanged c (send_if_open c f)) = maxReconnectAttempts c \<and>
   reconnectAttempts (or_unchanged c (send_if_open c f)) = reconnectAttempts c \<and>
   timers (or_unchanged c (send_if_open c f)) = timers c"
  by (cases "send_if_open c f") (auto simp: or_unchanged_def dest: send_if_open_fields)

lemma browser_step_bounds:
  "maxReconnectAttempts c \<le> 5 \<Longrightarrow> reconnectAttempts c \<le> 5 \<Longrightarrow>
   maxReconnectAttempts (snd (browser_step b c)) \<le> 5 \<and>
   reconnectAttempts (snd (browser_step b c)) \<le> 5"
  by (cases b) (auto simp: ws_defs)

lemma ws_step_bounds:
  "maxReconnectAttempts c \<le> 5 \<Longrightarrow> reconnectAttempts c \<le> 5 \<Longrightarrow>
   maxReconnectAttempts (ws_step e c) \<le> 5 \<and> reconnectAttempts (ws_step e c) \<le> 5"
  by (cases e)
     (auto simp: browser_step_bounds or_unchanged_fields sendInput_def sendKill_def
        spawnAgent_def connect_def disconnect_def Let_def split: option.splits)

lemma ws_run_bounds:
  "maxReconnectAttempts c \<le> 5 \<Longrightarrow> reconnectAttempts c \<le> 5 \<Longrightarrow>
   maxReconnectAttempts (ws_run es c) \<le> 5 \<and> reconnectAttempts (ws_run es c) \<le> 5"
proof (induction es arbitrary: c)
  case Nil
  then show ?case by simp
next
  case (Cons e es)
  from ws_step_bounds[OF Cons.prems] show ?case
    using Cons.IH by simp
qed

lemma browser_step_no_timer:
  "maxReconnectAttempts c = 0 \<Longrightarrow>
   maxReconnectAttempts (snd (browser_step b c)) = 0 \<and>
   subseq (timers (snd (browser_step b c))) (timers c)"
  by (cases b) (auto simp: ws_defs subseq_remove_nth)

lemma ws_step_no_timer:
  "maxReconnectAttempts c = 0 \<Longrightarrow>
   maxReconnectAttempts (ws_step e c) = 0 \<and> subseq (timers (ws_step e c)) (timers c)"
  by (cases e)
     (auto simp: browser_step_no_timer or_unchanged_fields sendInput_def sendKill_def
        spawnAgent_def connect_def disconnect_def Let_def split: option.splits)

lemma ws_run_no_timer:
  "maxReconnectAttempts c = 0 \<Longrightarrow>
   maxReconnectAttempts (ws_run es c) = 0 \<and> subseq (timers (ws_run es c)) (timers c)"
proof (induction es arbitrary: c)
  case Nil
  then show ?case by simp
next
  case (Cons e es)
  from ws_step_no_timer[OF Cons.prems, of e]
  have zero: "maxReconnectAttempts (ws_step e c) = 0"
    and sub: "subseq (timers (ws_step e c)) (timers c)"
    by auto
  from Cons.IH[OF zero]
  have "subseq (timers (ws_run es (ws_step e c))) (timers (ws_step e c))"
    and "maxReconnectAttempts (ws_run es (ws_step e c)) = 0"
    by auto
  with sub show ?case
    by (auto intro: subseq_order.trans)
qed

lemma disconnect_fields:
  "maxReconnectAttempts (disconnect c) = 0 \<and> timers (disconnect c) = timers c"
  by (auto simp: disconnect_def Let_def split: option.splits)

text \<open>
  C4, as the code has it. On a close event the client schedules \<open>connect()\<close> after 1000 ms
  times the new attempt number, a delay that grows linearly with the attempt, as long as
  the attempt counter is below \<open>maxReconnectAttempts\<close>, and schedules nothing otherwise;
  along every run of a new client the counter stays at most 5; the open event of a
  connecting socket resets the counter to zero; and after \<open>disconnect()\<close> the cap is zero
  for good and no event adds a timer (the pending ones can only leave the list).
\<close>

theorem reconnect_linear_capped:
  "(i < length (sockets c) \<and> readyState (sockets c ! i) \<noteq> CLOSED \<and>
      reconnectAttempts c < maxReconnectAttempts c \<longrightarrow>
        timers (snd (browser_step (SocketClose i) c))
          = timers c @ [1000 * (reconnectAttempts c + 1)] \<and>
        reconnectAttempts (snd (browser_step (SocketClose i) c)) = reconnectAttempts c + 1)
   \<and> (\<not> reconnectAttempts c < maxReconnectAttempts c \<longrightarrow>
        timers (snd (browser_step (SocketClose i) c)) = timers c)
   \<and> reconnectAttempts (ws_run evs (new_client t)) \<le> 5
   \<and> (i < length (sockets c) \<and> readyState (sockets c ! i) = CONNECTING \<longrightarrow>
        reconnectAttempts (snd (browser_step (SocketOpen i) c)) = 0)
   \<and> maxReconnectAttempts (ws_run evs (disconnect c)) = 0
   \<and> subseq (timers (ws_run evs (disconnect c))) (timers c)"
proof -
  have capped: "reconnectAttempts (ws_run evs (new_client t)) \<le> 5"
    using ws_run_bounds[of "new_client t" evs] by (simp add: new_client_def)
  have stopped: "maxReconnectAttempts (ws_run evs (disconnect c)) = 0 \<and>
                 subseq (timers (ws_run evs (disconnect c))) (timers c)"
    using ws_run_no_timer[of "disconnect c" evs] disconnect_fields[of c] by simp
  show ?thesis
    using capped stopped
    by (auto simp: onclose_def set_ready_def onopen_def reconnect_delay_def)
qed

theorem reconnect_linear_capped_witness:
  "0 < length (sockets (connect (new_client (Task 5)))) \<and>
   readyState (sockets (connect (new_client (Task 5))) ! 0) \<noteq> CLOSED \<and>
   readyState (sockets (connect (new_client (Task 5))) ! 0) = CONNECTING \<and>
   reconnectAttempts (connect (new_client (Task 5)))
     < maxReconnectAttempts (connect (new_client (Task 5))) \<and>
   timers (snd (browser_step (SocketClose 0) (connect (new_client (Task 5))))) = [1000] \<and>
   reconnectAttempts (snd (browser_step (SocketClose 0) (connect (new_client (Task 5))))) = 1 \<and>
   reconnectAttempts (snd (browser_step (SocketOpen 0) (connect (new_client (Task 5))))) = 0 \<and>
   \<not> reconnectAttempts (disconnect (new_client (Task 5)))
       < maxReconnectAttempts (disconnect (new_client (Task 5))) \<and>
   timers (snd (browser_step (SocketClose 0) (disconnect (new_client (Task 5))))) = [] \<and>
   reconnectAttempts (ws_run [CallConnect, Browser (SocketClose 0)] (new_client (Task 5))) \<le> 5 \<and>
   maxReconnectAttempts
     (ws_run [Browser (SocketClose 0)] (disconnect (connect (new_client (Task 5))))) = 0 \<and>
   subseq (timers (ws_run [Browser (SocketClose 0)] (disconnect (connect (new_client (Task 5))))))
     []"
  using
    reconnect_linear_capped
      [of 0 "connect (new_client (Task 5))" "[CallConnect, Browser (SocketClose 0)]" "Task 5"]
    reconnect_linear_capped [of 0 "disconnect (new_client (Task 5))" "[]" "Task 5"]
    reconnect_linear_capped
      [of 0 "connect (new_client (Task 5))" "[Browser (SocketClose 0)]" "Task 5"]
  by (simp add: new_client_def connect_def isConnected_def new_socket_def disconnect_def Let_def)

text \<open>
  C4 as stated fails: the delays of the first three attempts, 1000, 2000 and 3000 ms, are
  the first three values of no exponential policy.
\<close>

theorem reconnect_delay_not_exponential:
  "\<not> (\<exists>base factor.
        reconnect_delay 1 = exponential_backoff base factor 1 \<and>
        reconnect_delay 2 = exponential_backoff base factor 2 \<and>
        reconnect_delay 3 = exponential_backoff base factor 3)"
proof
  assume "\<exists>base factor.
            reconnect_delay 1 = exponential_backoff base factor 1 \<and>
            reconnect_delay 2 = exponential_backoff base factor 2 \<and>
            reconnect_delay 3 = exponential_backoff base factor 3"
  then obtain b f where
    first: "reconnect_delay 1 = exponential_backoff b f 1" and
    second: "reconnect_delay 2 = exponential_backoff b f 2" and
    third: "reconnect_delay 3 = exponential_backoff b f 3"
    by blast
  from first have b: "b = 1000"
    by (simp add: reconnect_delay_def exponential_backoff_def)
  from second b have f: "f = 2"
    by (simp add: reconnect_delay_def exponential_backoff_def)
  from third b f show False
    by (simp add: reconnect_delay_def exponential_backoff_def)
qed

text \<open>
  The delays the client really schedules on three closes in a row, each reconnection
  closing again before it opens.
\<close>

lemma three_failed_attempts:
  "timers (ws_run [CallConnect, Browser (SocketClose 0)] (new_client (Task 5))) = [1000] \<and>
   timers (ws_run [CallConnect, Browser (SocketClose 0), Browser (TimerFire 0),
                   Browser (SocketClose 1)] (new_client (Task 5))) = [2000] \<and>
   timers (ws_run [CallConnect, Browser (SocketClose 0), Browser (TimerFire 0),
                   Browser (SocketClose 1), Browser (TimerFire 0), Browser (SocketClose 2)]
             (new_client (Task 5))) = [3000]"
  by (simp add: new_client_def connect_def isConnected_def new_socket_def set_ready_def
        onclose_def reconnect_delay_def)

text \<open>
  A timer that is pending when \<open>disconnect()\<close> is called still fires and opens a new
  socket: \<open>disconnect()\<close> clears no timer.
\<close>

lemma disconnect_leaves_pending_timer:
  "ws (ws_run [CallConnect, Browser (SocketClose 0), CallDisconnect, Browser (TimerFire 0)]
         (new_client (Task 5))) = Some 1"
  by (simp add: new_client_def connect_def isConnected_def new_socket_def disconnect_def Let_def
        set_ready_def onclose_def socket_close_def reconnect_delay_def)

subsection \<open>Connecting and sending\<close>

text \<open>
  C8. For both client classes, \<open>connect()\<close> on a client whose socket is open changes
  nothing: the client, its current socket and the list of sockets it has created stay as
  they were.
\<close>

theorem connect_when_open_is_noop:
  "isConnected c \<Longrightarrow>
   connect c = c \<and> ws_step CallConnect c = c \<and>
   length (sockets (connect c)) = length (sockets c)"
  by (simp add: connect_def)

theorem connect_when_open_is_noop_witness:
  "isConnected (ws_run [CallConnect, Browser (SocketOpen 0)] (new_client (Task 5))) \<and>
   connect (ws_run [CallConnect, Browser (SocketOpen 0)] (new_client (Task 5)))
     = ws_run [CallConnect, Browser (SocketOpen 0)] (new_client (Task 5)) \<and>
   isConnected (ws_run [CallConnect, Browser (SocketOpen 0)] (new_client (Session ''s''))) \<and>
   length (sockets (connect (ws_run [CallConnect, Browser (SocketOpen 0)]
                               (new_client (Session ''s''))))) = 1"
  using
    connect_when_open_is_noop
      [of "ws_run [CallConnect, Browser (SocketOpen 0)] (new_client (Task 5))"]
    connect_when_open_is_noop
      [of "ws_run [CallConnect, Browser (SocketOpen 0)] (new_client (Session ''s''))"]
  by (simp add: new_client_def connect_def isConnected_def new_socket_def set_ready_def
        onopen_def)

text \<open>
  C9. On a client whose socket is not open, \<open>sendInput\<close>, \<open>sendKill\<close> and \<open>spawnAgent\<close>
  return normally and leave the client exactly as it was: no frame reaches any socket and
  nothing is kept for later, so every later run is the run without the call.
\<close>

theorem send_when_not_open_is_discarded:
  "\<not> isConnected c \<Longrightarrow>
   sendInput c d = Inr c \<and> sendKill c = Inr c \<and> spawnAgent c p a w = Inr c \<and>
   ws_run (CallSendInput d # evs) c = ws_run evs c \<and>
   ws_run (CallSendKill # evs) c = ws_run evs c \<and>
   ws_run (CallSpawnAgent p a w # evs) c = ws_run evs c"
  by (simp add: sendInput_def sendKill_def spawnAgent_def send_if_open_def or_unchanged_def)

theorem send_when_not_open_is_discarded_witness:
  "\<not> isConnected (connect (new_client (Task 5))) \<and>
   sendInput (connect (new_client (Task 5))) ''ls'' = Inr (connect (new_client (Task 5))) \<and>
   sendKill (connect (new_client (Task 5))) = Inr (connect (new_client (Task 5))) \<and>
   map outbox (sockets (ws_run [CallSendInput ''ls'', Browser (SocketOpen 0)]
                          (connect (new_client (Task 5))))) = [[]]"
  using
    send_when_not_open_is_discarded
      [of "connect (new_client (Task 5))" "''ls''" "''p''" "''a''" "''w''"
          "[Browser (SocketOpen 0)]"]
  by (simp add: new_client_def connect_def isConnected_def new_socket_def set_ready_def
        onopen_def sendInput_def sendKill_def spawnAgent_def send_if_open_def or_unchanged_def)

text \<open>
  C6. On a client whose socket is open, \<open>spawnAgent(prompt, agent, worktreePath)\<close> puts
  exactly one frame, the object with \<open>type\<close> \<open>spawn\<close> and the fields \<open>prompt\<close>, \<open>agent\<close>
  and \<open>worktree_path\<close> holding the arguments, at the end of the current socket's outbox
  and changes nothing else; the session endpoint's inbound contract reads that frame as
  the spawn request with the same three values.
\<close>

theorem spawnAgent_sends_one_spawn_frame:
  "isConnected c \<Longrightarrow>
   spawnAgent c prompt agent worktreePath =
     Inr (c\<lparr>sockets := (sockets c)
               [the (ws c) := (sockets c ! the (ws c))
                  \<lparr>outbox := outbox (sockets c ! the (ws c)) @
                     [JObj [(''type'', JStr ''spawn''), (''prompt'', JStr prompt),
                            (''agent'', JStr agent),
                            (''worktree_path'', JStr worktreePath)]]\<rparr>]\<rparr>)
   \<and> session_inbound
        (JObj [(''type'', JStr ''spawn''), (''prompt'', JStr prompt),
               (''agent'', JStr agent), (''worktree_path'', JStr worktreePath)])
       = Some (InSpawn prompt agent worktreePath)"
  by (auto simp: spawnAgent_def send_if_open_def socket_send_def isConnected_def
        session_inbound_def split: option.splits)

theorem spawnAgent_sends_one_spawn_frame_witness:
  "isConnected (ws_run [CallConnect, Browser (SocketOpen 0)] (new_client (Session ''s''))) \<and>
   spawnAgent (ws_run [CallConnect, Browser (SocketOpen 0)] (new_client (Session ''s'')))
       ''make it blue'' ''claude'' ''/repo'' =
     Inr \<lparr>ws = Some 0, target = Session ''s'', reconnectAttempts = 0,
          maxReconnectAttempts = 5,
          sockets =
            [\<lparr>url = Session ''s'', readyState = OPEN,
              outbox = [JObj [(''type'', JStr ''spawn''), (''prompt'', JStr ''make it blue''),
                              (''agent'', JStr ''claude''),
                              (''worktree_path'', JStr ''/repo'')]]\<rparr>],
          timers = []\<rparr>"
  using
    spawnAgent_sends_one_spawn_frame
      [of "ws_run [CallConnect, Browser (SocketOpen 0)] (new_client (Session ''s''))"
          "''make it blue''" "''claude''" "''/repo''"]
  by (simp add: new_client_def connect_def isConnected_def new_socket_def set_ready_def
        onopen_def)

section \<open>Properties of the terminal component\<close>

lemma str_includes_prefix: "str_includes (needle @ ys) needle"
proof (cases "needle @ ys")
  case Nil
  then show ?thesis by simp
next
  case (Cons a list)
  then have "prefix needle (a # list)"
    by (metis prefixI)
  with Cons show ?thesis by simp
qed

lemma str_includes_append: "str_includes (xs @ needle @ ys) needle"
  by (induction xs) (auto simp: str_includes_prefix)

lemma str_includes_iff: "str_includes l n = (\<exists>ps ss. l = ps @ n @ ss)"
proof (induction l)
  case Nil then show ?case by auto
next
  case (Cons c cs)
  show ?case
  proof
    assume "str_includes (c # cs) n"
    then consider "prefix n (c # cs)" | "str_includes cs n" by auto
    then show "\<exists>ps ss. c # cs = ps @ n @ ss"
    proof cases
      case 1 then obtain ss where "c # cs = n @ ss" by (auto simp: prefix_def)
      then have "c # cs = [] @ n @ ss" by simp
      then show ?thesis by blast
    next
      case 2 with Cons obtain ps ss where "cs = ps @ n @ ss" by auto
      then have "c # cs = (c # ps) @ n @ ss" by simp
      then show ?thesis by blast
    qed
  next
    assume "\<exists>ps ss. c # cs = ps @ n @ ss"
    then obtain ps ss where e: "c # cs = ps @ n @ ss" by blast
    then show "str_includes (c # cs) n" using str_includes_append[of ps n ss] by simp
  qed
qed

lemma exit_line_marked:
  "str_includes (exit_line code) ''Process exited with code'' \<and>
   str_includes (exit_line code) ''[Process exited with code''"
proof -
  have "exit_line code = ''['' @ ''Process exited with code'' @ ('' '' @ code @ '']'')"
    by (simp add: exit_line_def)
  then have a: "str_includes (exit_line code) ''Process exited with code''"
    using str_includes_append[of "''[''" "''Process exited with code''" "'' '' @ code @ '']''"] by simp
  have "exit_line code = [] @ ''[Process exited with code'' @ ('' '' @ code @ '']'')"
    by (simp add: exit_line_def)
  then have b: "str_includes (exit_line code) ''[Process exited with code''"
    using str_includes_append[of "[]" "''[Process exited with code''" "'' '' @ code @ '']''"] by simp
  from a b show ?thesis by simp
qed

lemma handleMessage_output_running:
  "isRunning (handleMessage v (Output ln err)) = (\<not> str_includes ln ''Process exited with code'')"
  by (simp add: Let_def term_write_def)

lemma terminal_receives:
  "j < length (sockets c) \<Longrightarrow> readyState (sockets c ! j) = OPEN \<Longrightarrow> target c = Task n \<Longrightarrow>
   terminal_on_browser (SocketMessage j (Some m)) (v, c) = (handleMessage v m, c)"
  by (simp add: terminal_on_browser_def onmessage_def)

text \<open>
  C1. The supervisor's half, on the supervisor as the specification describes it: when a
  process with a live handle exits, exactly one line is added to the output stream of its
  id, on stdout, containing \<open>Process exited with code\<close>, while the handle is still
  held, and the handle is cleared after it; an exit reported for an id without a handle
  adds nothing. The client's half, on \<open>handleMessage\<close>: an output message on the open
  socket of a terminal client reaches \<open>handleMessage\<close>; if its line contains
  \<open>Process exited with code\<close> the running indicator is false afterwards, and any other
  output line received while the indicator is false sets it to true. So the supervisor's
  exit line turns the indicator off.
\<close>

theorem exit_line_clears_running_indicator:
  "(has_live_handle s i \<longrightarrow>
      on_process_exit s i code = clear_handle (emit_exit_line s i code) i \<and>
      has_live_handle (emit_exit_line s i code) i \<and>
      stream (on_process_exit s i code) i = stream s i @ [Output (exit_line code) False] \<and>
      \<not> has_live_handle (on_process_exit s i code) i \<and>
      str_includes (exit_line code) ''Process exited with code'')
   \<and> (\<not> has_live_handle s i \<longrightarrow> on_process_exit s i code = s)
   \<and> (j < length (sockets c) \<and> readyState (sockets c ! j) = OPEN \<and> target c = Task n \<longrightarrow>
        terminal_on_browser (SocketMessage j (Some (Output ln err))) (v, c)
          = (handleMessage v (Output ln err), c))
   \<and> (str_includes ln ''Process exited with code'' \<longrightarrow>
        \<not> isRunning (handleMessage v (Output ln err)))
   \<and> (\<not> str_includes ln ''Process exited with code'' \<and> \<not> isRunning v \<longrightarrow>
        isRunning (handleMessage v (Output ln err)))
   \<and> \<not> isRunning (handleMessage v (Output (exit_line code) False))"
proof -
  have lifecycle: "has_live_handle s i \<longrightarrow>
      on_process_exit s i code = clear_handle (emit_exit_line s i code) i \<and>
      has_live_handle (emit_exit_line s i code) i \<and>
      stream (on_process_exit s i code) i = stream s i @ [Output (exit_line code) False] \<and>
      \<not> has_live_handle (on_process_exit s i code) i \<and>
      str_includes (exit_line code) ''Process exited with code''"
    using exit_line_marked[of code]
    by (simp add: has_live_handle_def emit_exit_line_def clear_handle_def on_process_exit_def)
  have once: "\<not> has_live_handle s i \<longrightarrow> on_process_exit s i code = s"
    by (simp add: on_process_exit_def)
  have received: "j < length (sockets c) \<and> readyState (sockets c ! j) = OPEN \<and> target c = Task n \<longrightarrow>
        terminal_on_browser (SocketMessage j (Some (Output ln err))) (v, c)
          = (handleMessage v (Output ln err), c)"
    using terminal_receives[of j c n "Output ln err" v] by blast
  have stops: "\<not> isRunning (handleMessage v (Output (exit_line code) False))"
    using exit_line_marked[of code] by (simp only: handleMessage_output_running) simp
  show ?thesis
    using lifecycle once received stops
    by (simp only: handleMessage_output_running) blast
qed


theorem exit_line_clears_running_indicator_witness:
  "has_live_handle \<lparr>handles = (\<lambda>_. None)(Task 5 := Some 4242), stream = (\<lambda>_. [])\<rparr> (Task 5) \<and>
   stream (on_process_exit \<lparr>handles = (\<lambda>_. None)(Task 5 := Some 4242), stream = (\<lambda>_. [])\<rparr>
             (Task 5) ''0'') (Task 5)
     = [Output ''[Process exited with code 0]'' False] \<and>
   \<not> has_live_handle (on_process_exit \<lparr>handles = (\<lambda>_. None)(Task 5 := Some 4242), stream = (\<lambda>_. [])\<rparr>
                    (Task 5) ''0'') (Task 5) \<and>
   \<not> has_live_handle \<lparr>handles = (\<lambda>_. None), stream = (\<lambda>_. [])\<rparr> (Task 5) \<and>
   on_process_exit \<lparr>handles = (\<lambda>_. None), stream = (\<lambda>_. [])\<rparr> (Task 5) ''0''
     = \<lparr>handles = (\<lambda>_. None), stream = (\<lambda>_. [])\<rparr> \<and>
   0 < length (sockets (snd (terminal_on_browser (SocketOpen 0) (terminal_mount 5)))) \<and>
   readyState (sockets (snd (terminal_on_browser (SocketOpen 0) (terminal_mount 5))) ! 0) = OPEN \<and>
   target (snd (terminal_on_browser (SocketOpen 0) (terminal_mount 5))) = Task 5 \<and>
   str_includes ''[Process exited with code 0]'' ''Process exited with code'' \<and>
   \<not> isRunning (fst (terminal_on_browser
                        (SocketMessage 0 (Some (Output ''[Process exited with code 0]'' False)))
                        (\<lparr>connected = True, isRunning = True, written = []\<rparr>,
                         snd (terminal_on_browser (SocketOpen 0) (terminal_mount 5))))) \<and>
   \<not> str_includes ''building'' ''Process exited with code'' \<and>
   \<not> isRunning \<lparr>connected = True, isRunning = False, written = []\<rparr> \<and>
   isRunning (handleMessage \<lparr>connected = True, isRunning = False, written = []\<rparr>
                (Output ''building'' False))"
  using
    exit_line_clears_running_indicator
      [of "\<lparr>handles = (\<lambda>_. None)(Task 5 := Some 4242), stream = (\<lambda>_. [])\<rparr>" "Task 5" "''0''"
          0 "snd (terminal_on_browser (SocketOpen 0) (terminal_mount 5))" 5
          "''[Process exited with code 0]''" False
          "\<lparr>connected = True, isRunning = True, written = []\<rparr>"]
    exit_line_clears_running_indicator
      [of "\<lparr>handles = (\<lambda>_. None), stream = (\<lambda>_. [])\<rparr>" "Task 5" "''0''"
          0 "snd (terminal_on_browser (SocketOpen 0) (terminal_mount 5))" 5
          "''building''" False
          "\<lparr>connected = True, isRunning = False, written = []\<rparr>"]
  by (simp add: exit_line_def has_live_handle_def emit_exit_line_def clear_handle_def
        on_process_exit_def terminal_on_browser_def terminal_mount_def new_client_def
        connect_def isConnected_def new_socket_def set_ready_def onopen_def onmessage_def)

text \<open>
  C2. The gateway's half, on the gateway as the specification describes it: the message
  sent on connect to a task terminal is \<open>connected\<close> with the task id and the
  supervisor's current running state. The client's half, on \<open>handleMessage\<close>: when that
  message arrives on the open socket of a terminal client, the connected indicator is
  true afterwards and the running indicator is the carried \<open>is_running\<close>.
\<close>

theorem connected_message_sets_indicators:
  "gateway_on_connect s (Task n) = Connected (Task n) (has_live_handle s (Task n))
   \<and> (j < length (sockets c) \<and> readyState (sockets c ! j) = OPEN \<and> target c = Task n \<longrightarrow>
        connected (fst (terminal_on_browser
                          (SocketMessage j (Some (gateway_on_connect s (Task n)))) (v, c))) \<and>
        isRunning (fst (terminal_on_browser
                          (SocketMessage j (Some (gateway_on_connect s (Task n)))) (v, c)))
          = has_live_handle s (Task n))
   \<and> connected (handleMessage v (Connected i running))
   \<and> isRunning (handleMessage v (Connected i running)) = running"
  by (auto simp: gateway_on_connect_def terminal_on_browser_def onmessage_def Let_def
        term_writeln_def term_write_def)

theorem connected_message_sets_indicators_witness:
  "0 < length (sockets (snd (terminal_on_browser (SocketOpen 0) (terminal_mount 5)))) \<and>
   readyState (sockets (snd (terminal_on_browser (SocketOpen 0) (terminal_mount 5))) ! 0) = OPEN \<and>
   target (snd (terminal_on_browser (SocketOpen 0) (terminal_mount 5))) = Task 5 \<and>
   gateway_on_connect \<lparr>handles = (\<lambda>_. None)(Task 5 := Some 4242), stream = (\<lambda>_. [])\<rparr> (Task 5)
     = Connected (Task 5) True \<and>
   connected (fst (terminal_on_browser (SocketMessage 0 (Some (Connected (Task 5) True)))
                     (terminal_on_browser (SocketOpen 0) (terminal_mount 5)))) \<and>
   isRunning (fst (terminal_on_browser (SocketMessage 0 (Some (Connected (Task 5) True)))
                     (terminal_on_browser (SocketOpen 0) (terminal_mount 5))))"
  using
    connected_message_sets_indicators
      [of "\<lparr>handles = (\<lambda>_. None)(Task 5 := Some 4242), stream = (\<lambda>_. [])\<rparr>" 5 0
          "snd (terminal_on_browser (SocketOpen 0) (terminal_mount 5))"
          "fst (terminal_on_browser (SocketOpen 0) (terminal_mount 5))"]
  by (simp add: gateway_on_connect_def has_live_handle_def terminal_on_browser_def terminal_mount_def
        new_client_def connect_def isConnected_def new_socket_def set_ready_def onopen_def
        onmessage_def Let_def term_writeln_def term_write_def)


section \<open>Properties of the board, the API client and the settings store\<close>

lemma board_card_shown:
  "(t, shown) \<in> set (board_cards ts) \<Longrightarrow>
   shown = (status t = ''stopped'' \<or> status t = ''failed'' \<or> status t = ''completed'')"
  by (auto simp: board_cards_def kanban_columns_def getTasksByStatus_def card_shows_delete_def
        no_handlers_def split: if_splits)

text \<open>
  C3. The user interface's half, on the components: a \<open>TaskCard\<close> shows its Delete
  button exactly when it is given \<open>onDelete\<close> and the status is \<open>stopped\<close>,
  \<open>failed\<close> or \<open>completed\<close>; every card the board renders shows it exactly for
  those three statuses (the board passes \<open>onDelete\<close> in the columns of these statuses
  only); the task page shows it exactly for those three statuses of a loaded task. The
  backend's half, on the delete operation as the specification describes it: deleting a
  task in \<open>in_progress\<close> is rejected with a conflict, and deleting one in the three
  statuses removes its row and its worktree.
\<close>

theorem delete_only_when_stopped_failed_completed:
  "card_shows_delete h t
     = (onDelete h \<and> (status t = ''stopped'' \<or> status t = ''failed'' \<or> status t = ''completed''))
   \<and> ((t, shown) \<in> set (board_cards ts) \<longrightarrow>
        shown = (status t = ''stopped'' \<or> status t = ''failed'' \<or> status t = ''completed''))
   \<and> page_shows_delete (Some t)
        = (status t = ''stopped'' \<or> status t = ''failed'' \<or> status t = ''completed'')
   \<and> \<not> page_shows_delete None
   \<and> (find (\<lambda>r. task_id r = i) (rows b) = Some t \<and> status t = ''in_progress'' \<longrightarrow>
        backend_delete b i = Inl ConflictError)
   \<and> (find (\<lambda>r. task_id r = i) (rows b) = Some t \<and>
        (status t = ''stopped'' \<or> status t = ''failed'' \<or> status t = ''completed'') \<longrightarrow>
        backend_delete b i
          = Inr (b\<lparr>rows := filter (\<lambda>r. task_id r \<noteq> i) (rows b),
                    worktrees := filter (\<lambda>w. Some w \<noteq> worktree_path t) (worktrees b)\<rparr>))"
  using board_card_shown[of t shown ts]
  by (auto simp: card_shows_delete_def page_shows_delete_def backend_delete_def)

theorem delete_only_when_stopped_failed_completed_witness:
  "(\<lparr>task_id = 7, clickup_task_id = ''abc'', name = ''fix'', description = None,
     priority = Some 1, status = ''stopped'', worktree_path = Some ''/wt/7'',
     time_spent_ms = 0, started_at = None, completed_at = None, is_running = False\<rparr>, True)
     \<in> set (board_cards
              [\<lparr>task_id = 7, clickup_task_id = ''abc'', name = ''fix'', description = None,
                priority = Some 1, status = ''stopped'', worktree_path = Some ''/wt/7'',
                time_spent_ms = 0, started_at = None, completed_at = None, is_running = False\<rparr>]) \<and>
   find (\<lambda>r. task_id r = 8)
     (rows \<lparr>rows = [\<lparr>task_id = 8, clickup_task_id = ''abd'', name = ''run'', description = None,
                      priority = None, status = ''in_progress'', worktree_path = Some ''/wt/8'',
                      time_spent_ms = 0, started_at = None, completed_at = None, is_running = True\<rparr>],
            worktrees = [''/wt/8'']\<rparr>)
     = Some \<lparr>task_id = 8, clickup_task_id = ''abd'', name = ''run'', description = None,
             priority = None, status = ''in_progress'', worktree_path = Some ''/wt/8'',
             time_spent_ms = 0, started_at = None, completed_at = None, is_running = True\<rparr> \<and>
   backend_delete
     \<lparr>rows = [\<lparr>task_id = 8, clickup_task_id = ''abd'', name = ''run'', description = None,
                priority = None, status = ''in_progress'', worktree_path = Some ''/wt/8'',
                time_spent_ms = 0, started_at = None, completed_at = None, is_running = True\<rparr>],
      worktrees = [''/wt/8'']\<rparr> 8 = Inl ConflictError \<and>
   find (\<lambda>r. task_id r = 7)
     (rows \<lparr>rows = [\<lparr>task_id = 7, clickup_task_id = ''abc'', name = ''fix'', description = None,
                      priority = Some 1, status = ''stopped'', worktree_path = Some ''/wt/7'',
                      time_spent_ms = 0, started_at = None, completed_at = None, is_running = False\<rparr>],
            worktrees = [''/wt/7'']\<rparr>)
     = Some \<lparr>task_id = 7, clickup_task_id = ''abc'', name = ''fix'', description = None,
             priority = Some 1, status = ''stopped'', worktree_path = Some ''/wt/7'',
             time_spent_ms = 0, started_at = None, completed_at = None, is_running = False\<rparr> \<and>
   backend_delete
     \<lparr>rows = [\<lparr>task_id = 7, clickup_task_id = ''abc'', name = ''fix'', description = None,
                priority = Some 1, status = ''stopped'', worktree_path = Some ''/wt/7'',
                time_spent_ms = 0, started_at = None, completed_at = None, is_running = False\<rparr>],
      worktrees = [''/wt/7'']\<rparr> 7 = Inr \<lparr>rows = [], worktrees = []\<rparr>"
  using
    delete_only_when_stopped_failed_completed
      [of no_handlers
          "\<lparr>task_id = 8, clickup_task_id = ''abd'', name = ''run'', description = None,
            priority = None, status = ''in_progress'', worktree_path = Some ''/wt/8'',
            time_spent_ms = 0, started_at = None, completed_at = None, is_running = True\<rparr>"
          False "[]" 8
          "\<lparr>rows = [\<lparr>task_id = 8, clickup_task_id = ''abd'', name = ''run'', description = None,
                priority = None, status = ''in_progress'', worktree_path = Some ''/wt/8'',
                time_spent_ms = 0, started_at = None, completed_at = None, is_running = True\<rparr>],
            worktrees = [''/wt/8'']\<rparr>"]
    delete_only_when_stopped_failed_completed
      [of no_handlers
          "\<lparr>task_id = 7, clickup_task_id = ''abc'', name = ''fix'', description = None,
            priority = Some 1, status = ''stopped'', worktree_path = Some ''/wt/7'',
            time_spent_ms = 0, started_at = None, completed_at = None, is_running = False\<rparr>"
          True
          "[\<lparr>task_id = 7, clickup_task_id = ''abc'', name = ''fix'', description = None,
             priority = Some 1, status = ''stopped'', worktree_path = Some ''/wt/7'',
             time_spent_ms = 0, started_at = None, completed_at = None, is_running = False\<rparr>]"
          7
          "\<lparr>rows = [\<lparr>task_id = 7, clickup_task_id = ''abc'', name = ''fix'', description = None,
                priority = Some 1, status = ''stopped'', worktree_path = Some ''/wt/7'',
                time_spent_ms = 0, started_at = None, completed_at = None, is_running = False\<rparr>],
            worktrees = [''/wt/7'']\<rparr>"]
  by (simp add: board_cards_def kanban_columns_def getTasksByStatus_def card_shows_delete_def
        no_handlers_def backend_delete_def)

text \<open>
  C7. For a response that is not ok, whose body text can be read, \<open>handleResponse\<close>
  throws an \<open>ApiError\<close> with the response's numeric status and the body text, or the
  status text when the body is empty; for a response that is ok it returns the parsed
  JSON body.
\<close>

theorem handleResponse_ok_or_ApiError:
  "(\<not> ok r \<and> body_text r = Inr t \<longrightarrow>
      handleResponse r = Inl (ApiError (resp_status r) (if t = [] then statusText r else t)))
   \<and> (ok r \<and> body_json r = Inr v \<longrightarrow> handleResponse r = Inr v)"
  by (simp add: handleResponse_def)

theorem handleResponse_ok_or_ApiError_witness:
  "\<not> ok \<lparr>ok = False, resp_status = 409, statusText = ''Conflict'', body_text = Inr ''task is running'', body_json = Inl SyntaxError :: js_error + nat\<rparr> \<and>
   handleResponse \<lparr>ok = False, resp_status = 409, statusText = ''Conflict'', body_text = Inr ''task is running'', body_json = Inl SyntaxError :: js_error + nat\<rparr>
     = Inl (ApiError 409 ''task is running'') \<and>
   handleResponse \<lparr>ok = False, resp_status = 404, statusText = ''Not Found'', body_text = Inr [], body_json = Inl SyntaxError :: js_error + nat\<rparr>
     = Inl (ApiError 404 ''Not Found'') \<and>
   ok \<lparr>ok = True, resp_status = 200, statusText = ''OK'', body_text = Inr ''42'', body_json = Inr (42::nat)\<rparr> \<and>
   handleResponse \<lparr>ok = True, resp_status = 200, statusText = ''OK'', body_text = Inr ''42'', body_json = Inr (42::nat)\<rparr> = Inr 42"
  using handleResponse_ok_or_ApiError[of "\<lparr>ok = False, resp_status = 409, statusText = ''Conflict'', body_text = Inr ''task is running'', body_json = Inl SyntaxError :: js_error + nat\<rparr>" "''task is running''" 0]
   handleResponse_ok_or_ApiError[of "\<lparr>ok = False, resp_status = 404, statusText = ''Not Found'', body_text = Inr [], body_json = Inl SyntaxError :: js_error + nat\<rparr>" "[]" 0]
   handleResponse_ok_or_ApiError[of "\<lparr>ok = True, resp_status = 200, statusText = ''OK'', body_text = Inr ''42'', body_json = Inr (42::nat)\<rparr>" "[]" 42]
  by simp

text \<open>
  C10, as the code has it. \<open>get(k)\<close> is never \<open>undefined\<close>, and it is the loaded value
  of \<open>k\<close> whenever there is one. For a key that is not the name of a property of
  \<open>Object.prototype\<close>, \<open>get(k)\<close> is the loaded value of \<open>k\<close> when there is one,
  otherwise the default of \<open>k\<close>, otherwise the empty string; the defaults of
  \<open>parallel_limit\<close>, \<open>trigger_status\<close>, \<open>target_status\<close> and \<open>dev_branch\<close> are
  \<open>1\<close>, \<open>Ready for Dev\<close>, \<open>In Development\<close> and \<open>dev\<close>; and \<open>set(k, v)\<close> makes
  \<open>get(k)\<close> return \<open>v\<close> and leaves every other entry as it was. \<open>set\<close> raises the dirty
  flag and leaves \<open>loading\<close> and \<open>error\<close> as they were, for every key.
\<close>

theorem settings_get_set:
  "settings_get s k \<noteq> None
   \<and> (settings s k = Some x \<longrightarrow> settings_get s k = Some (JsString x))
   \<and> (object_prototype k = None \<longrightarrow>
        settings_get s k
          = Some (JsString (case settings s k of
                              Some x \<Rightarrow> x
                            | None \<Rightarrow> (case defaults k of Some d \<Rightarrow> d | None \<Rightarrow> []))))
   \<and> defaults ''parallel_limit'' = Some ''1''
   \<and> defaults ''trigger_status'' = Some ''Ready for Dev''
   \<and> defaults ''target_status'' = Some ''In Development''
   \<and> defaults ''dev_branch'' = Some ''dev''
   \<and> (object_prototype k = None \<longrightarrow>
        settings (settings_set w s k v) = (settings s)(k \<mapsto> v) \<and>
        settings_get (settings_set w s k v) k = Some (JsString v))
   \<and> (object_prototype k = None \<and> k' \<noteq> k \<longrightarrow>
        settings (settings_set w s k v) k' = settings s k' \<and>
        settings_get (settings_set w s k v) k' = settings_get s k')
   \<and> dirty (settings_set w s k v)
   \<and> loading (settings_set w s k v) = loading s
   \<and> error (settings_set w s k v) = error s"
proof -
  have defined: "settings_get s k \<noteq> None"
    by (simp add: settings_get_def nullish_def split: option.splits)
  have loaded: "settings s k = Some x \<longrightarrow> settings_get s k = Some (JsString x)"
    by (simp add: settings_get_def nullish_def property_read_def)
  have plain: "object_prototype k = None \<longrightarrow>
        settings_get s k
          = Some (JsString (case settings s k of
                              Some x \<Rightarrow> x
                            | None \<Rightarrow> (case defaults k of Some d \<Rightarrow> d | None \<Rightarrow> [])))"
    by (simp add: settings_get_def nullish_def property_read_def split: option.splits)
  have table: "defaults ''parallel_limit'' = Some ''1'' \<and>
      defaults ''trigger_status'' = Some ''Ready for Dev'' \<and>
      defaults ''target_status'' = Some ''In Development'' \<and>
      defaults ''dev_branch'' = Some ''dev''"
    by (simp add: defaults_def)
  have written: "object_prototype k = None \<longrightarrow>
        settings (settings_set w s k v) = (settings s)(k \<mapsto> v) \<and>
        settings_get (settings_set w s k v) k = Some (JsString v)"
    by (simp add: settings_get_def settings_set_def property_write_def property_read_def
          nullish_def)
  have others: "object_prototype k = None \<and> k' \<noteq> k \<longrightarrow>
        settings (settings_set w s k v) k' = settings s k' \<and>
        settings_get (settings_set w s k v) k' = settings_get s k'"
    by (simp add: settings_get_def settings_set_def property_write_def property_read_def)
  have flags: "dirty (settings_set w s k v) \<and> loading (settings_set w s k v) = loading s \<and>
      error (settings_set w s k v) = error s"
    by (simp add: settings_set_def)
  from defined loaded plain table written others flags show ?thesis
    by blast
qed

theorem settings_get_set_witness:
  "object_prototype ''parallel_limit'' = None \<and>
   ''dev_branch'' \<noteq> ''parallel_limit'' \<and>
   settings (settings_set (\<lambda>obj key val. obj)
               \<lparr>settings = Map.empty, loading = False, error = None, dirty = False\<rparr>
               ''parallel_limit'' ''3'') ''parallel_limit'' = Some ''3'' \<and>
   settings_get (settings_set (\<lambda>obj key val. obj)
                   \<lparr>settings = Map.empty, loading = False, error = None, dirty = False\<rparr>
                   ''parallel_limit'' ''3'') ''parallel_limit'' = Some (JsString ''3'') \<and>
   settings_get (settings_set (\<lambda>obj key val. obj)
                   \<lparr>settings = Map.empty, loading = False, error = None, dirty = False\<rparr>
                   ''parallel_limit'' ''3'') ''dev_branch'' = Some (JsString ''dev'') \<and>
   settings_get \<lparr>settings = Map.empty, loading = False, error = None, dirty = False\<rparr>
     ''parallel_limit'' = Some (JsString ''1'') \<and>
   settings_get \<lparr>settings = Map.empty, loading = False, error = None, dirty = False\<rparr>
     ''agent_prompt'' = Some (JsString [])"
  using
    settings_get_set
      [of "settings_set (\<lambda>obj key val. obj)
             \<lparr>settings = Map.empty, loading = False, error = None, dirty = False\<rparr>
             ''parallel_limit'' ''3''"
          "''parallel_limit''" "''3''" "\<lambda>obj key val. obj"
          "''3''" "''dev_branch''"]
    settings_get_set
      [of "\<lparr>settings = Map.empty, loading = False, error = None, dirty = False\<rparr>"
          "''parallel_limit''" "''1''" "\<lambda>obj key val. obj" "''3''" "''dev_branch''"]
  by (simp add: settings_get_def settings_set_def property_write_def property_read_def
        nullish_def defaults_def object_prototype_def)

text \<open>
  C10 as stated fails at the names of \<open>Object.prototype\<close>: with nothing loaded and no
  default for \<open>toString\<close>, \<open>get('toString')\<close> is not the empty string but the function
  every object inherits under that name.
\<close>

theorem settings_get_inherited_key:
  "settings \<lparr>settings = Map.empty, loading = False, error = None, dirty = False\<rparr> ''toString''
     = None \<and>
   defaults ''toString'' = None \<and>
   settings_get \<lparr>settings = Map.empty, loading = False, error = None, dirty = False\<rparr>
     ''toString'' = Some (JsFunction ''toString'') \<and>
   settings_get \<lparr>settings = Map.empty, loading = False, error = None, dirty = False\<rparr>
     ''toString'' \<noteq> Some (JsString [])"
  by (simp add: settings_get_def property_read_def nullish_def defaults_def
        object_prototype_def)

section \<open>Properties of the UI-refinement page\<close>

subsection \<open>The two functions, one branch at a time\<close>

lemma processMessage_fallback:
  "wsClient p = None \<or> targetRepoPath p = [] \<Longrightarrow>
   processMessage now p m =
     processNextInQueue now
       ((uuid_taken p)
          \<lparr>messages := messages p @
             [\<lparr>msg_id = randomUUID p, role = Assistant,
               content = ''Error: Not connected to backend or no target repository configured.'',
               timestamp = now, elementContext = None, chat_status = Failed\<rparr>],
           isProcessing := False\<rparr>)"
  by (simp add: processMessage.simps)

lemma processMessage_spawn:
  "wsClient p = Some c \<Longrightarrow> targetRepoPath p \<noteq> [] \<Longrightarrow>
   processMessage now p m =
     (uuid_taken p)
       \<lparr>currentAssistantMessageId := Some (randomUUID p),
        messages := messages p @
          [\<lparr>msg_id = randomUUID p, role = Assistant, content = [], timestamp = now,
            elementContext = None, chat_status = Processing\<rparr>],
        wsClient :=
          Some (or_unchanged c
                  (spawnAgent c (buildPrompt m) (agent_name (selectedAgent p))
                     (targetRepoPath p)))\<rparr>"
  by (simp add: processMessage.simps)

lemma processNextInQueue_empty:
  "messageQueue p = [] \<Longrightarrow> processNextInQueue now p = p"
  by (simp add: processNextInQueue.simps)

lemma processNextInQueue_next:
  "messageQueue p = n # rest \<Longrightarrow>
   processNextInQueue now p =
     processMessage now
       (p\<lparr>messageQueue := rest, isProcessing := True,
          messages := messages p @
            [\<lparr>msg_id = q_id n, role = User, content = q_content n, timestamp = now,
              elementContext = q_elementContext n, chat_status = Processing\<rparr>]\<rparr>)
       \<lparr>msg_id = q_id n, role = User, content = q_content n, timestamp = now,
        elementContext = q_elementContext n, chat_status = Processing\<rparr>"
  by (simp add: processNextInQueue.simps)

lemma arrival_process:
  shows "started (processMessage now p m) @ waiting (processMessage now p m) = started p @ waiting p"
    and "started (processNextInQueue now p) @ waiting (processNextInQueue now p) = started p @ waiting p"
proof (induction now p m and now p rule: processMessage_processNextInQueue.induct)
  case (1 now p message)
  show ?case
  proof (cases "wsClient p = None \<or> targetRepoPath p = []")
    case True
    with 1 show ?thesis
      by (simp add: processMessage_fallback started_def waiting_def uuid_taken_def)
  next
    case False
    then obtain c where "wsClient p = Some c" "targetRepoPath p \<noteq> []" by auto
    then show ?thesis
      by (simp add: processMessage_spawn started_def waiting_def uuid_taken_def)
  qed
next
  case (2 now p)
  show ?case
  proof (cases "messageQueue p")
    case Nil
    then show ?thesis by (simp add: processNextInQueue_empty)
  next
    case (Cons n rest)
    with 2[OF Cons] show ?thesis
      by (simp add: processNextInQueue_next started_def waiting_def)
  qed
qed

lemma started_prefix_process:
  shows "prefix (started p) (started (processMessage now p m))"
    and "prefix (started p) (started (processNextInQueue now p))"
proof (induction now p m and now p rule: processMessage_processNextInQueue.induct)
  case (1 now p message)
  show ?case
  proof (cases "wsClient p = None \<or> targetRepoPath p = []")
    case True
    with 1 show ?thesis
      by (simp add: processMessage_fallback started_def uuid_taken_def)
  next
    case False
    then obtain c where "wsClient p = Some c" "targetRepoPath p \<noteq> []" by auto
    then show ?thesis
      by (simp add: processMessage_spawn started_def uuid_taken_def)
  qed
next
  case (2 now p)
  show ?case
  proof (cases "messageQueue p")
    case Nil
    then show ?thesis by (simp add: processNextInQueue_empty)
  next
    case (Cons n rest)
    from 2[OF Cons] have "prefix (started p @ [q_id n]) (started (processNextInQueue now p))"
      using Cons by (simp add: processNextInQueue_next started_def)
    then show ?thesis by (meson append_prefixD)
  qed
qed

subsection \<open>Order of arrival\<close>

text \<open>
  The started messages followed by the waiting ones: \<open>processMessage\<close> and
  \<open>processNextInQueue\<close> move the head of the queue to the end of the started messages
  and change nothing else of it.
\<close>

lemma update_current_obs:
  "(\<And>m. msg_id (f m) = msg_id m \<and> role (f m) = role m) \<Longrightarrow>
   started (update_current f p) = started p \<and> waiting (update_current f p) = waiting p"
  by (cases "currentAssistantMessageId p")
     (auto simp: update_current_def started_def waiting_def filter_map o_def intro!: arg_cong[where f="map msg_id"] filter_cong)


lemma handleWsMessage_arrival:
  "started (handleWsMessage now p m) @ waiting (handleWsMessage now p m) = started p @ waiting p \<and>
   prefix (started p) (started (handleWsMessage now p m))"
proof (cases m)
  case (Output ln err)
  let ?p1 = "update_current (\<lambda>m. m\<lparr>content := content m @ ln @ nl\<rparr>) p"
  let ?p3 = "(update_current (\<lambda>m. m\<lparr>chat_status := Completed\<rparr>) ?p1)
               \<lparr>currentAssistantMessageId := None, isProcessing := False\<rparr>"
  have a: "started ?p1 = started p \<and> waiting ?p1 = waiting p"
    by (rule update_current_obs) simp
  have b: "started ?p3 = started p \<and> waiting ?p3 = waiting p"
    using update_current_obs[of "\<lambda>m. m\<lparr>chat_status := Completed\<rparr>" ?p1] a
    by (simp add: started_def waiting_def)
  show ?thesis
    using Output a b arrival_process(2)[of now ?p3] started_prefix_process(2)[of ?p3 now]
    by (simp add: Let_def)
next
  case (ErrorMessage message)
  let ?p3 = "(update_current
           (\<lambda>m. m\<lparr>content := content m @ nl @ ''Error: '' @ message, chat_status := Failed\<rparr>) p)
          \<lparr>currentAssistantMessageId := None, isProcessing := False\<rparr>"
  have b: "started ?p3 = started p \<and> waiting ?p3 = waiting p"
    using update_current_obs[of "\<lambda>m. m\<lparr>content := content m @ nl @ ''Error: '' @ message, chat_status := Failed\<rparr>" p]
    by (simp add: started_def waiting_def)
  show ?thesis
    using ErrorMessage b arrival_process(2)[of now ?p3] started_prefix_process(2)[of ?p3 now]
    by simp
qed simp_all

lemma foldl_callback_arrival:
  "started (foldl (page_callback now) p cbs) @ waiting (foldl (page_callback now) p cbs)
     = started p @ waiting p \<and>
   prefix (started p) (started (foldl (page_callback now) p cbs))"
proof (induction cbs arbitrary: p)
  case Nil
  then show ?case by simp
next
  case (Cons cb cbs)
  have step: "started (page_callback now p cb) @ waiting (page_callback now p cb) = started p @ waiting p \<and>
              prefix (started p) (started (page_callback now p cb))"
    using handleWsMessage_arrival by (cases cb) simp_all
  from Cons[of "page_callback now p cb"] step show ?case
    by (auto intro: prefix_order.trans)
qed

text \<open>A page that is not processing has an empty queue, after every handler.\<close>

lemma idle_process:
  shows "isProcessing p \<Longrightarrow>
         isProcessing (processMessage now p m) \<or> messageQueue (processMessage now p m) = []"
    and "isProcessing (processNextInQueue now p) \<or> messageQueue (processNextInQueue now p) = []"
proof (induction now p m and now p rule: processMessage_processNextInQueue.induct)
  case (1 now p message)
  show ?case
  proof (cases "wsClient p = None \<or> targetRepoPath p = []")
    case True
    with 1 show ?thesis
      by (simp add: processMessage_fallback)
  next
    case False
    then obtain c where "wsClient p = Some c" "targetRepoPath p \<noteq> []" by auto
    with 1(2) show ?thesis
      by (simp add: processMessage_spawn uuid_taken_def)
  qed
next
  case (2 now p)
  show ?case
  proof (cases "messageQueue p")
    case Nil
    then show ?thesis by (simp add: processNextInQueue_empty)
  next
    case (Cons n rest)
    with 2[OF Cons] show ?thesis
      by (simp add: processNextInQueue_next)
  qed
qed

lemma handleWsMessage_idle:
  "isProcessing p \<or> messageQueue p = [] \<Longrightarrow>
   isProcessing (handleWsMessage now p m) \<or> messageQueue (handleWsMessage now p m) = []"
  by (cases m) (auto simp: Let_def update_current_def idle_process(2) split: option.splits)

lemma foldl_callback_idle:
  "isProcessing p \<or> messageQueue p = [] \<Longrightarrow>
   isProcessing (foldl (page_callback now) p cbs) \<or>
   messageQueue (foldl (page_callback now) p cbs) = []"
proof (induction cbs arbitrary: p)
  case Nil
  then show ?case by simp
next
  case (Cons cb cbs)
  have "isProcessing (page_callback now p cb) \<or> messageQueue (page_callback now p cb) = []"
    using Cons.prems handleWsMessage_idle by (cases cb) simp_all
  from Cons.IH[OF this] show ?case by simp
qed

lemma handleSendMessage_idle:
  "isProcessing (handleSendMessage now p body) \<or> messageQueue (handleSendMessage now p body) = []"
proof (cases "isProcessing p")
  case True
  then show ?thesis
    by (simp add: handleSendMessage_def Let_def uuid_taken_def)
next
  case False
  let ?m = "\<lparr>msg_id = randomUUID p, role = User, content = body, timestamp = now,
              elementContext = selectedElement p, chat_status = Pending\<rparr>"
  let ?p0 = "(uuid_taken p)\<lparr>isProcessing := True,
               messages := messages p @ [?m\<lparr>chat_status := Processing\<rparr>]\<rparr>"
  have eq: "handleSendMessage now p body = (processMessage now ?p0 ?m)\<lparr>selectedElement := None\<rparr>"
    using False by (simp add: handleSendMessage_def Let_def uuid_taken_def)
  have "isProcessing ?p0" by simp
  from idle_process(1)[OF this, of now ?m] show ?thesis
    by (simp add: eq)
qed

lemma page_step_idle:
  "isProcessing p \<or> messageQueue p = [] \<Longrightarrow>
   isProcessing (page_step e p) \<or> messageQueue (page_step e p) = []"
proof (cases e)
  case (SendMessage now body)
  then show ?thesis using handleSendMessage_idle[of now p body] by simp
next
  case (ClientEvent now b)
  assume idle: "isProcessing p \<or> messageQueue p = []"
  show ?thesis
  proof (cases "wsClient p")
    case None
    with ClientEvent idle show ?thesis by simp
  next
    case (Some c)
    let ?p = "p\<lparr>wsClient := Some (snd (browser_step b c))\<rparr>"
    have "isProcessing ?p \<or> messageQueue ?p = []" using idle by simp
    from foldl_callback_idle[OF this, of now "fst (browser_step b c)"] ClientEvent Some
    show ?thesis by simp
  qed
qed (auto simp: handleBranchCreate_def uuid_taken_def handleCancelQueue_def)

lemma handleSendMessage_arrival:
  "isProcessing p \<or> messageQueue p = [] \<Longrightarrow>
   started (handleSendMessage now p body) @ waiting (handleSendMessage now p body)
     = started p @ waiting p @ [randomUUID p] \<and>
   prefix (started p) (started (handleSendMessage now p body))"
proof (cases "isProcessing p")
  case True
  then show ?thesis
    by (simp add: handleSendMessage_def Let_def uuid_taken_def started_def waiting_def)
next
  case False
  assume "isProcessing p \<or> messageQueue p = []"
  with False have empty: "waiting p = []" by (simp add: waiting_def)
  let ?m = "\<lparr>msg_id = randomUUID p, role = User, content = body, timestamp = now,
              elementContext = selectedElement p, chat_status = Pending\<rparr>"
  let ?p0 = "(uuid_taken p)\<lparr>isProcessing := True,
               messages := messages p @ [?m\<lparr>chat_status := Processing\<rparr>]\<rparr>"
  have s0: "started ?p0 = started p @ [randomUUID p]" "waiting ?p0 = waiting p"
    by (simp_all add: started_def waiting_def uuid_taken_def)
  have eq: "handleSendMessage now p body = (processMessage now ?p0 ?m)\<lparr>selectedElement := None\<rparr>"
    using False by (simp add: handleSendMessage_def Let_def uuid_taken_def)
  have obs: "started ((processMessage now ?p0 ?m)\<lparr>selectedElement := None\<rparr>) = started (processMessage now ?p0 ?m)"
     "waiting ((processMessage now ?p0 ?m)\<lparr>selectedElement := None\<rparr>) = waiting (processMessage now ?p0 ?m)"
    by (simp_all add: started_def waiting_def)
  from arrival_process(1)[of now ?p0 ?m] started_prefix_process(1)[of ?p0 now ?m] s0 empty
  have "started (processMessage now ?p0 ?m) @ waiting (processMessage now ?p0 ?m) = started p @ waiting p @ [randomUUID p]"
    and "prefix (started p) (started (processMessage now ?p0 ?m))"
    by (auto dest: append_prefixD)
  then show ?thesis using eq obs by simp
qed

subsection \<open>Spawn requests and completions\<close>

lemma frames_update:
  "i < length xs \<Longrightarrow>
   length (filter P (concat (map outbox (xs[i := (xs ! i)\<lparr>outbox := outbox (xs ! i) @ [f]\<rparr>]))))
     = length (filter P (concat (map outbox xs))) + (if P f then 1 else 0)"
proof (induction xs arbitrary: i)
  case Nil
  then show ?case by simp
next
  case (Cons x xs)
  then show ?case by (cases i) auto
qed

lemma frames_ready:
  "concat (map outbox (xs[i := (xs ! i)\<lparr>readyState := r\<rparr>])) = concat (map outbox xs)"
proof (induction xs arbitrary: i)
  case Nil
  then show ?case by simp
next
  case (Cons x xs)
  then show ?case by (cases i) auto
qed

lemma spawn_frames_spawnAgent:
  "spawn_frames (or_unchanged c (spawnAgent c a b d)) \<le> spawn_frames c + 1"
  by (auto simp: spawn_frames_def or_unchanged_def spawnAgent_def send_if_open_def
        socket_send_def isConnected_def frames_update split: option.splits)

lemma spawn_frames_browser_step:
  "spawn_frames (snd (browser_step b c)) = spawn_frames c"
  by (cases b)
     (auto simp: spawn_frames_def onopen_def onclose_def set_ready_def connect_def
        new_socket_def frames_ready)

lemma spawns_process:
  shows "isProcessing p \<Longrightarrow>
         spawns_sent (processMessage now p m)
           \<le> spawns_sent p + of_bool (isProcessing (processMessage now p m))"
    and "spawns_sent (processNextInQueue now p)
           \<le> spawns_sent p + of_bool (isProcessing (processNextInQueue now p))"
proof (induction now p m and now p rule: processMessage_processNextInQueue.induct)
  case (1 now p message)
  show ?case
  proof (cases "wsClient p = None \<or> targetRepoPath p = []")
    case True
    with 1(1) show ?thesis
      by (simp add: processMessage_fallback spawns_sent_def uuid_taken_def)
  next
    case False
    then obtain c where "wsClient p = Some c" "targetRepoPath p \<noteq> []" by auto
    with 1(2) spawn_frames_spawnAgent[of c "buildPrompt message" "agent_name (selectedAgent p)" "targetRepoPath p"]
    show ?thesis
      by (simp add: processMessage_spawn uuid_taken_def spawns_sent_def)
  qed
next
  case (2 now p)
  show ?case
  proof (cases "messageQueue p")
    case Nil
    then show ?thesis by (simp add: processNextInQueue_empty)
  next
    case (Cons n rest)
    with 2[OF Cons] show ?thesis
      by (simp add: processNextInQueue_next spawns_sent_def)
  qed
qed

lemma update_current_spawns:
  "spawns_sent (update_current f p) = spawns_sent p \<and>
   isProcessing (update_current f p) = isProcessing p"
  by (simp add: update_current_def spawns_sent_def split: option.splits)

lemma handleWsMessage_spawns:
  "spawns_sent p \<le> k + of_bool (isProcessing p) \<Longrightarrow>
   spawns_sent (handleWsMessage now p m)
     \<le> k + of_bool (is_completion m) + of_bool (isProcessing (handleWsMessage now p m))"
proof (cases m)
  case (Output ln err)
  assume inv: "spawns_sent p \<le> k + of_bool (isProcessing p)"
  let ?p1 = "update_current (\<lambda>m. m\<lparr>content := content m @ ln @ nl\<rparr>) p"
  let ?p3 = "(update_current (\<lambda>m. m\<lparr>chat_status := Completed\<rparr>) ?p1)
               \<lparr>currentAssistantMessageId := None, isProcessing := False\<rparr>"
  have "spawns_sent ?p3 = spawns_sent p"
    using update_current_spawns[of "\<lambda>m. m\<lparr>chat_status := Completed\<rparr>" ?p1]
          update_current_spawns[of "\<lambda>m. m\<lparr>content := content m @ ln @ nl\<rparr>" p]
    by (simp add: spawns_sent_def)
  with spawns_process(2)[of now ?p3] inv
  have after: "spawns_sent (processNextInQueue now ?p3) \<le> k + 1 + of_bool (isProcessing (processNextInQueue now ?p3))"
    by (cases "isProcessing p") simp_all
  show ?thesis
    using Output inv after update_current_spawns[of "\<lambda>m. m\<lparr>content := content m @ ln @ nl\<rparr>" p]
    by (simp add: Let_def)
next
  case (ErrorMessage message)
  assume inv: "spawns_sent p \<le> k + of_bool (isProcessing p)"
  let ?p3 = "(update_current
           (\<lambda>m. m\<lparr>content := content m @ nl @ ''Error: '' @ message, chat_status := Failed\<rparr>) p)
          \<lparr>currentAssistantMessageId := None, isProcessing := False\<rparr>"
  have "spawns_sent ?p3 = spawns_sent p"
    using update_current_spawns[of "\<lambda>m. m\<lparr>content := content m @ nl @ ''Error: '' @ message, chat_status := Failed\<rparr>" p]
    by (simp add: spawns_sent_def)
  with spawns_process(2)[of now ?p3] inv
  have "spawns_sent (processNextInQueue now ?p3) \<le> k + 1 + of_bool (isProcessing (processNextInQueue now ?p3))"
    by (cases "isProcessing p") simp_all
  then show ?thesis using ErrorMessage by simp
qed simp_all

lemma handleSendMessage_spawns:
  "spawns_sent p \<le> k + of_bool (isProcessing p) \<Longrightarrow>
   spawns_sent (handleSendMessage now p body)
     \<le> k + of_bool (isProcessing (handleSendMessage now p body))"
proof (cases "isProcessing p")
  case True
  assume "spawns_sent p \<le> k + of_bool (isProcessing p)"
  with True show ?thesis
    by (simp add: handleSendMessage_def Let_def uuid_taken_def spawns_sent_def)
next
  case False
  assume inv: "spawns_sent p \<le> k + of_bool (isProcessing p)"
  let ?m = "\<lparr>msg_id = randomUUID p, role = User, content = body, timestamp = now,
              elementContext = selectedElement p, chat_status = Pending\<rparr>"
  let ?p0 = "(uuid_taken p)\<lparr>isProcessing := True,
               messages := messages p @ [?m\<lparr>chat_status := Processing\<rparr>]\<rparr>"
  have eq: "handleSendMessage now p body = (processMessage now ?p0 ?m)\<lparr>selectedElement := None\<rparr>"
    using False by (simp add: handleSendMessage_def Let_def uuid_taken_def)
  have "isProcessing ?p0" by simp
  from spawns_process(1)[OF this, of now ?m] inv False show ?thesis
    by (simp add: eq spawns_sent_def uuid_taken_def)
qed

lemma page_step_spawns:
  "spawns_sent p \<le> k + of_bool (isProcessing p) \<Longrightarrow>
   spawns_sent (page_step e p)
     \<le> k + of_bool (completion_event e) + of_bool (isProcessing (page_step e p))"
proof (cases e)
  case (SendMessage now body)
  assume "spawns_sent p \<le> k + of_bool (isProcessing p)"
  from handleSendMessage_spawns[OF this, of now body] SendMessage show ?thesis by simp
next
  case (BranchCreate b)
  then show ?thesis
    by (simp add: handleBranchCreate_def uuid_taken_def spawns_sent_def spawn_frames_def
          connect_def new_client_def isConnected_def new_socket_def)
next
  case (ClientEvent now b)
  assume inv: "spawns_sent p \<le> k + of_bool (isProcessing p)"
  show ?thesis
  proof (cases "wsClient p")
    case None
    with ClientEvent inv show ?thesis by simp
  next
    case (Some c)
    let ?p = "p\<lparr>wsClient := Some (snd (browser_step b c))\<rparr>"
    have inv': "spawns_sent ?p \<le> k + of_bool (isProcessing ?p)"
      using inv Some by (simp add: spawns_sent_def spawn_frames_browser_step)
    show ?thesis
    proof (cases "\<exists>m. fst (browser_step b c) = [OnMessage m]")
      case True
      then obtain m where m: "fst (browser_step b c) = [OnMessage m]" by blast
      then have "b = SocketMessage (case b of SocketMessage i _ \<Rightarrow> i | _ \<Rightarrow> 0) (Some m)"
        by (cases b) (auto simp: onmessage_def onclose_def split: if_splits option.splits target.splits ws_message.splits)
      then have "completion_event e = is_completion m"
        using ClientEvent by (metis completion_event.simps(1))
      with handleWsMessage_spawns[OF inv', of now m] ClientEvent Some m show ?thesis by simp
    next
      case False
      then have "foldl (page_callback now) ?p (fst (browser_step b c)) = ?p"
        by (cases b) (auto simp: onmessage_def onclose_def split: if_splits option.splits target.splits ws_message.splits)
      with inv' ClientEvent Some show ?thesis by simp
    qed
  qed
qed (simp_all add: spawns_sent_def handleCancelQueue_def)

lemma page_run_spawns:
  "spawns_sent p \<le> k + of_bool (isProcessing p) \<Longrightarrow>
   spawns_sent (page_run evs p) \<le> k + completions evs + of_bool (isProcessing (page_run evs p))"
proof (induction evs arbitrary: p k)
  case Nil
  then show ?case by (simp add: completions_def)
next
  case (Cons e evs)
  from Cons.IH[OF page_step_spawns[OF Cons.prems, of e]] show ?case
    by (cases "completion_event e") (simp_all add: completions_def)
qed

lemma one_outstanding:
  "spawns_sent (page_run evs (initial_page src)) \<le> completions evs + 1"
proof -
  have "spawns_sent (initial_page src) \<le> 0 + of_bool (isProcessing (initial_page src))"
    by (simp add: initial_page_def spawns_sent_def)
  from page_run_spawns[OF this, of evs]
  show ?thesis by (cases "isProcessing (page_run evs (initial_page src))") simp_all
qed


subsection \<open>The two handlers at the queue\<close>

lemma send_while_processing:
  "isProcessing p \<Longrightarrow>
   handleSendMessage now p body =
     p\<lparr>uuidCalls := Suc (uuidCalls p),
       messageQueue := messageQueue p @
         [\<lparr>q_id = randomUUID p, q_content = body, q_elementContext = selectedElement p,
           queuePosition = length (messageQueue p) + 1\<rparr>],
       selectedElement := None\<rparr>"
  by (simp add: handleSendMessage_def Let_def uuid_taken_def)

lemma completion_starts_next:
  assumes "is_completion m" and "messageQueue p = q # qs" and "wsClient p = Some c"
    and "targetRepoPath p \<noteq> []"
  shows "messageQueue (handleWsMessage now p m) = qs \<and>
         isProcessing (handleWsMessage now p m) \<and>
         started (handleWsMessage now p m) = started p @ [q_id q] \<and>
         currentAssistantMessageId (handleWsMessage now p m) = Some (randomUUID p) \<and>
         wsClient (handleWsMessage now p m) =
           Some (or_unchanged c
                   (spawnAgent c
                      (buildPrompt \<lparr>msg_id = q_id q, role = User, content = q_content q,
                                     timestamp = now, elementContext = q_elementContext q,
                                     chat_status = Processing\<rparr>)
                      (agent_name (selectedAgent p)) (targetRepoPath p)))"
proof -
  have next_of: "\<And>p'. messageQueue p' = q # qs \<Longrightarrow> wsClient p' = Some c \<Longrightarrow>
      targetRepoPath p' = targetRepoPath p \<Longrightarrow> selectedAgent p' = selectedAgent p \<Longrightarrow>
      started p' = started p \<Longrightarrow> uuidSource p' = uuidSource p \<Longrightarrow> uuidCalls p' = uuidCalls p \<Longrightarrow>
      messageQueue (processNextInQueue now p') = qs \<and>
      isProcessing (processNextInQueue now p') \<and>
      started (processNextInQueue now p') = started p @ [q_id q] \<and>
      currentAssistantMessageId (processNextInQueue now p') = Some (randomUUID p) \<and>
      wsClient (processNextInQueue now p') =
        Some (or_unchanged c
                (spawnAgent c
                   (buildPrompt \<lparr>msg_id = q_id q, role = User, content = q_content q,
                                  timestamp = now, elementContext = q_elementContext q,
                                  chat_status = Processing\<rparr>)
                   (agent_name (selectedAgent p)) (targetRepoPath p)))"
    using assms(4)
    by (simp add: processNextInQueue_next processMessage_spawn uuid_taken_def started_def
          randomUUID_def)
  have upd: "\<And>f p'. messageQueue (update_current f p') = messageQueue p' \<and>
       wsClient (update_current f p') = wsClient p' \<and>
       targetRepoPath (update_current f p') = targetRepoPath p' \<and>
       selectedAgent (update_current f p') = selectedAgent p' \<and>
       uuidSource (update_current f p') = uuidSource p' \<and>
       uuidCalls (update_current f p') = uuidCalls p'"
    by (simp add: update_current_def split: option.splits)
  show ?thesis
  proof (cases m)
    case (Output ln err)
    let ?p1 = "update_current (\<lambda>m. m\<lparr>content := content m @ ln @ nl\<rparr>) p"
    let ?p2 = "update_current (\<lambda>m. m\<lparr>chat_status := Completed\<rparr>) ?p1"
    let ?p3 = "?p2\<lparr>currentAssistantMessageId := None, isProcessing := False\<rparr>"
    have s1: "started ?p1 = started p"
      using update_current_obs[of "\<lambda>m. m\<lparr>content := content m @ ln @ nl\<rparr>" p] by simp
    have s2: "started ?p2 = started ?p1"
      using update_current_obs[of "\<lambda>m. m\<lparr>chat_status := Completed\<rparr>" ?p1] by simp
    have s3: "started ?p3 = started p"
      using s1 s2 by (simp add: started_def)
    have "messageQueue ?p3 = q # qs" "wsClient ?p3 = Some c"
      "targetRepoPath ?p3 = targetRepoPath p" "selectedAgent ?p3 = selectedAgent p"
      "uuidSource ?p3 = uuidSource p" "uuidCalls ?p3 = uuidCalls p"
      using assms upd by simp_all
    from next_of[OF this(1,2,3,4) s3 this(5,6)] Output assms(1) show ?thesis
      by (simp add: Let_def)
  next
    case (ErrorMessage message)
    let ?p2 = "update_current
           (\<lambda>m. m\<lparr>content := content m @ nl @ ''Error: '' @ message, chat_status := Failed\<rparr>) p"
    let ?p3 = "?p2\<lparr>currentAssistantMessageId := None, isProcessing := False\<rparr>"
    have s2: "started ?p2 = started p"
      using update_current_obs[of "\<lambda>m. m\<lparr>content := content m @ nl @ ''Error: '' @ message, chat_status := Failed\<rparr>" p] by simp
    have s3: "started ?p3 = started p"
      using s2 by (simp add: started_def)
    have "messageQueue ?p3 = q # qs" "wsClient ?p3 = Some c"
      "targetRepoPath ?p3 = targetRepoPath p" "selectedAgent ?p3 = selectedAgent p"
      "uuidSource ?p3 = uuidSource p" "uuidCalls ?p3 = uuidCalls p"
      using assms upd by simp_all
    from next_of[OF this(1,2,3,4) s3 this(5,6)] ErrorMessage show ?thesis
      by simp
  qed (use assms(1) in simp_all)
qed


subsection \<open>What holds of every page a run reaches\<close>

lemma page_run_idle:
  "isProcessing p \<or> messageQueue p = [] \<Longrightarrow>
   isProcessing (page_run evs p) \<or> messageQueue (page_run evs p) = []"
proof (induction evs arbitrary: p)
  case Nil
  then show ?case by simp
next
  case (Cons e evs)
  from Cons.IH[OF page_step_idle[OF Cons.prems, of e]] show ?case by simp
qed

lemma ready_process:
  shows "isProcessing (processMessage now p m) \<longrightarrow>
         wsClient (processMessage now p m) \<noteq> None \<and> targetRepoPath (processMessage now p m) \<noteq> []"
    and "(isProcessing p \<longrightarrow> wsClient p \<noteq> None \<and> targetRepoPath p \<noteq> []) \<Longrightarrow>
         isProcessing (processNextInQueue now p) \<longrightarrow>
         wsClient (processNextInQueue now p) \<noteq> None \<and>
         targetRepoPath (processNextInQueue now p) \<noteq> []"
proof (induction now p m and now p rule: processMessage_processNextInQueue.induct)
  case (1 now p message)
  show ?case
  proof (cases "wsClient p = None \<or> targetRepoPath p = []")
    case True
    with 1[OF True] show ?thesis
      by (simp add: processMessage_fallback)
  next
    case False
    then obtain c where "wsClient p = Some c" "targetRepoPath p \<noteq> []" by auto
    then show ?thesis
      by (simp add: processMessage_spawn uuid_taken_def)
  qed
next
  case (2 now p)
  show ?case
  proof (cases "messageQueue p")
    case Nil
    with 2(2) show ?thesis by (simp add: processNextInQueue_empty)
  next
    case (Cons n rest)
    with 2(1)[OF Cons] show ?thesis
      by (simp add: processNextInQueue_next)
  qed
qed

lemma handleWsMessage_ready:
  "(isProcessing p \<longrightarrow> wsClient p \<noteq> None \<and> targetRepoPath p \<noteq> []) \<Longrightarrow>
   isProcessing (handleWsMessage now p m) \<longrightarrow>
   wsClient (handleWsMessage now p m) \<noteq> None \<and> targetRepoPath (handleWsMessage now p m) \<noteq> []"
proof (cases m)
  case (Output ln err)
  assume r: "isProcessing p \<longrightarrow> wsClient p \<noteq> None \<and> targetRepoPath p \<noteq> []"
  let ?p1 = "update_current (\<lambda>m. m\<lparr>content := content m @ ln @ nl\<rparr>) p"
  let ?p3 = "(update_current (\<lambda>m. m\<lparr>chat_status := Completed\<rparr>) ?p1)
               \<lparr>currentAssistantMessageId := None, isProcessing := False\<rparr>"
  have p1: "isProcessing ?p1 = isProcessing p \<and> wsClient ?p1 = wsClient p \<and>
            targetRepoPath ?p1 = targetRepoPath p"
    by (simp add: update_current_def split: option.splits)
  have "isProcessing ?p3 \<longrightarrow> wsClient ?p3 \<noteq> None \<and> targetRepoPath ?p3 \<noteq> []" by simp
  from ready_process(2)[OF this, of now] Output r p1 show ?thesis
    by (simp add: Let_def)
next
  case (ErrorMessage message)
  let ?p3 = "(update_current
           (\<lambda>m. m\<lparr>content := content m @ nl @ ''Error: '' @ message, chat_status := Failed\<rparr>) p)
          \<lparr>currentAssistantMessageId := None, isProcessing := False\<rparr>"
  have "isProcessing ?p3 \<longrightarrow> wsClient ?p3 \<noteq> None \<and> targetRepoPath ?p3 \<noteq> []" by simp
  from ready_process(2)[OF this, of now] ErrorMessage show ?thesis by simp
qed simp_all

lemma foldl_callback_ready:
  "(isProcessing p \<longrightarrow> wsClient p \<noteq> None \<and> targetRepoPath p \<noteq> []) \<Longrightarrow>
   isProcessing (foldl (page_callback now) p cbs) \<longrightarrow>
   wsClient (foldl (page_callback now) p cbs) \<noteq> None \<and>
   targetRepoPath (foldl (page_callback now) p cbs) \<noteq> []"
proof (induction cbs arbitrary: p)
  case Nil
  then show ?case by simp
next
  case (Cons cb cbs)
  have "isProcessing (page_callback now p cb) \<longrightarrow>
        wsClient (page_callback now p cb) \<noteq> None \<and> targetRepoPath (page_callback now p cb) \<noteq> []"
    using Cons.prems handleWsMessage_ready[of p now] by (cases cb) simp_all
  from Cons.IH[OF this] show ?case by simp
qed

lemma handleSendMessage_ready:
  "(isProcessing p \<longrightarrow> wsClient p \<noteq> None \<and> targetRepoPath p \<noteq> []) \<Longrightarrow>
   isProcessing (handleSendMessage now p body) \<longrightarrow>
   wsClient (handleSendMessage now p body) \<noteq> None \<and>
   targetRepoPath (handleSendMessage now p body) \<noteq> []"
proof (cases "isProcessing p")
  case True
  assume "isProcessing p \<longrightarrow> wsClient p \<noteq> None \<and> targetRepoPath p \<noteq> []"
  with True show ?thesis
    by (simp add: handleSendMessage_def Let_def uuid_taken_def)
next
  case False
  let ?m = "\<lparr>msg_id = randomUUID p, role = User, content = body, timestamp = now,
              elementContext = selectedElement p, chat_status = Pending\<rparr>"
  let ?p0 = "(uuid_taken p)\<lparr>isProcessing := True,
               messages := messages p @ [?m\<lparr>chat_status := Processing\<rparr>]\<rparr>"
  have eq: "handleSendMessage now p body = (processMessage now ?p0 ?m)\<lparr>selectedElement := None\<rparr>"
    using False by (simp add: handleSendMessage_def Let_def uuid_taken_def)
  from ready_process(1)[of now ?p0 ?m] show ?thesis
    by (simp add: eq)
qed

lemma page_step_ready:
  "(isProcessing p \<longrightarrow> wsClient p \<noteq> None \<and> targetRepoPath p \<noteq> []) \<Longrightarrow>
   isProcessing (page_step e p) \<longrightarrow>
   wsClient (page_step e p) \<noteq> None \<and> targetRepoPath (page_step e p) \<noteq> []"
proof (cases e)
  case (SendMessage now body)
  assume "isProcessing p \<longrightarrow> wsClient p \<noteq> None \<and> targetRepoPath p \<noteq> []"
  from handleSendMessage_ready[OF this, of now body] SendMessage show ?thesis by simp
next
  case (ClientEvent now b)
  assume r: "isProcessing p \<longrightarrow> wsClient p \<noteq> None \<and> targetRepoPath p \<noteq> []"
  show ?thesis
  proof (cases "wsClient p")
    case None
    with ClientEvent r show ?thesis by simp
  next
    case (Some c)
    let ?p = "p\<lparr>wsClient := Some (snd (browser_step b c))\<rparr>"
    have "isProcessing ?p \<longrightarrow> wsClient ?p \<noteq> None \<and> targetRepoPath ?p \<noteq> []" using r by simp
    from foldl_callback_ready[OF this, of now "fst (browser_step b c)"] ClientEvent Some
    show ?thesis by simp
  qed
qed (auto simp: handleBranchCreate_def uuid_taken_def handleCancelQueue_def)

lemma page_run_ready:
  "(isProcessing p \<longrightarrow> wsClient p \<noteq> None \<and> targetRepoPath p \<noteq> []) \<Longrightarrow>
   isProcessing (page_run evs p) \<longrightarrow>
   wsClient (page_run evs p) \<noteq> None \<and> targetRepoPath (page_run evs p) \<noteq> []"
proof (induction evs arbitrary: p)
  case Nil
  then show ?case by simp
next
  case (Cons e evs)
  from Cons.IH[OF page_step_ready[OF Cons.prems, of e]] show ?case by simp
qed

lemma reachable_invariants:
  "(isProcessing (page_run evs (initial_page src)) \<or>
      messageQueue (page_run evs (initial_page src)) = []) \<and>
   (isProcessing (page_run evs (initial_page src)) \<longrightarrow>
      wsClient (page_run evs (initial_page src)) \<noteq> None \<and>
      targetRepoPath (page_run evs (initial_page src)) \<noteq> [])"
  using page_run_idle[of "initial_page src" evs] page_run_ready[of "initial_page src" evs]
  by (simp add: initial_page_def)

subsection \<open>The reply in the processing state\<close>

lemma replies_update_content:
  assumes "\<And>m. role (f m) = role m \<and> chat_status (f m) = chat_status m \<and> msg_id (f m) = msg_id m"
  shows "processing_replies (update_current f p)
           = map (\<lambda>m. if Some (msg_id m) = currentAssistantMessageId p then f m else m)
               (processing_replies p)"
proof (cases "currentAssistantMessageId p")
  case None
  then show ?thesis by (simp add: update_current_def)
next
  case (Some a)
  have "(\<lambda>m. role m = Assistant \<and> chat_status m = Processing) \<circ> (\<lambda>m. if msg_id m = a then f m else m)
        = (\<lambda>m. role m = Assistant \<and> chat_status m = Processing)"
    using assms by (auto simp: fun_eq_iff)
  with Some show ?thesis
    by (simp add: update_current_def processing_replies_def filter_map)
qed

lemma tracked_update_content:
  assumes "\<And>m. role (f m) = role m \<and> chat_status (f m) = chat_status m \<and> msg_id (f m) = msg_id m"
    and "reply_tracked p"
  shows "reply_tracked (update_current f p)"
proof -
  have cur: "currentAssistantMessageId (update_current f p) = currentAssistantMessageId p"
    "isProcessing (update_current f p) = isProcessing p"
    by (simp_all add: update_current_def split: option.splits)
  show ?thesis
    using assms(2) assms(1)
    unfolding reply_tracked_def cur replies_update_content[of f p, OF assms(1)]
    by (auto simp: list_all_iff)
qed

lemma replies_update_status:
  assumes "\<And>m. chat_status (f m) \<noteq> Processing"
    and "reply_tracked p"
  shows "processing_replies (update_current f p) = []"
proof (cases "currentAssistantMessageId p")
  case None
  with assms(2) show ?thesis
    by (simp add: update_current_def reply_tracked_def processing_replies_def)
next
  case (Some a)
  from assms(2) Some have all: "\<forall>m \<in> set (messages p).
      role m = Assistant \<and> chat_status m = Processing \<longrightarrow> msg_id m = a"
    by (auto simp: reply_tracked_def processing_replies_def list_all_iff)
  show ?thesis
    using Some all assms(1)
    by (auto simp: update_current_def processing_replies_def filter_empty_conv)
qed

lemma tracked_process:
  shows "currentAssistantMessageId p = None \<Longrightarrow> processing_replies p = [] \<Longrightarrow> isProcessing p \<Longrightarrow>
         reply_tracked (processMessage now p m)"
    and "currentAssistantMessageId p = None \<Longrightarrow> processing_replies p = [] \<Longrightarrow>
         reply_tracked (processNextInQueue now p)"
proof (induction now p m and now p rule: processMessage_processNextInQueue.induct)
  case (1 now p message)
  show ?case
  proof (cases "wsClient p = None \<or> targetRepoPath p = []")
    case True
    with 1(1)[OF True] 1(2,3) show ?thesis
      by (simp add: processMessage_fallback processing_replies_def uuid_taken_def)
  next
    case False
    then obtain c where "wsClient p = Some c" "targetRepoPath p \<noteq> []" by auto
    with 1(2,3,4) show ?thesis
      by (simp add: processMessage_spawn uuid_taken_def reply_tracked_def processing_replies_def)
  qed
next
  case (2 now p)
  show ?case
  proof (cases "messageQueue p")
    case Nil
    with 2(2,3) show ?thesis
      by (simp add: processNextInQueue_empty reply_tracked_def)
  next
    case (Cons n rest)
    with 2(1)[OF Cons] 2(2,3) show ?thesis
      by (simp add: processNextInQueue_next processing_replies_def)
  qed
qed


lemma tracked_fresh:
  "reply_tracked p \<Longrightarrow> processing_replies (update_current f p) = [] \<Longrightarrow>
   currentAssistantMessageId
     ((update_current f p)\<lparr>currentAssistantMessageId := None, isProcessing := False\<rparr>) = None \<and>
   processing_replies
     ((update_current f p)\<lparr>currentAssistantMessageId := None, isProcessing := False\<rparr>) = []"
  by (simp add: processing_replies_def)

lemma handleWsMessage_tracked:
  assumes "reply_tracked p"
  shows "reply_tracked (handleWsMessage now p m)"
proof (cases m)
  case (Output ln err)
  let ?p1 = "update_current (\<lambda>m. m\<lparr>content := content m @ ln @ nl\<rparr>) p"
  let ?p2 = "update_current (\<lambda>m. m\<lparr>chat_status := Completed\<rparr>) ?p1"
  let ?p3 = "?p2\<lparr>currentAssistantMessageId := None, isProcessing := False\<rparr>"
  have t1: "reply_tracked ?p1"
    by (rule tracked_update_content) (simp_all add: assms)
  have "processing_replies ?p2 = []"
    by (rule replies_update_status) (simp_all add: t1)
  then have "currentAssistantMessageId ?p3 = None" "processing_replies ?p3 = []"
    by (simp_all add: processing_replies_def)
  from tracked_process(2)[OF this, of now] t1 Output show ?thesis
    by (simp add: Let_def)
next
  case (ErrorMessage message)
  let ?p2 = "update_current
           (\<lambda>m. m\<lparr>content := content m @ nl @ ''Error: '' @ message, chat_status := Failed\<rparr>) p"
  let ?p3 = "?p2\<lparr>currentAssistantMessageId := None, isProcessing := False\<rparr>"
  have "processing_replies ?p2 = []"
    by (rule replies_update_status) (simp_all add: assms)
  then have "currentAssistantMessageId ?p3 = None" "processing_replies ?p3 = []"
    by (simp_all add: processing_replies_def)
  from tracked_process(2)[OF this, of now] ErrorMessage show ?thesis
    by simp
qed (simp_all add: assms)

lemma foldl_callback_tracked:
  "reply_tracked p \<Longrightarrow> reply_tracked (foldl (page_callback now) p cbs)"
proof (induction cbs arbitrary: p)
  case Nil
  then show ?case by simp
next
  case (Cons cb cbs)
  have "reply_tracked (page_callback now p cb)"
    using Cons.prems handleWsMessage_tracked by (cases cb) simp_all
  from Cons.IH[OF this] show ?case by simp
qed

lemma handleSendMessage_tracked:
  assumes "reply_tracked p"
  shows "reply_tracked (handleSendMessage now p body)"
proof (cases "isProcessing p")
  case True
  with assms show ?thesis
    by (simp add: handleSendMessage_def Let_def uuid_taken_def reply_tracked_def
          processing_replies_def)
next
  case False
  let ?m = "\<lparr>msg_id = randomUUID p, role = User, content = body, timestamp = now,
              elementContext = selectedElement p, chat_status = Pending\<rparr>"
  let ?p0 = "(uuid_taken p)\<lparr>isProcessing := True,
               messages := messages p @ [?m\<lparr>chat_status := Processing\<rparr>]\<rparr>"
  have eq: "handleSendMessage now p body = (processMessage now ?p0 ?m)\<lparr>selectedElement := None\<rparr>"
    using False by (simp add: handleSendMessage_def Let_def uuid_taken_def)
  from assms False have "currentAssistantMessageId p = None" "processing_replies p = []"
    by (auto simp: reply_tracked_def)
  then have "currentAssistantMessageId ?p0 = None" "processing_replies ?p0 = []" "isProcessing ?p0"
    by (simp_all add: processing_replies_def uuid_taken_def)
  from tracked_process(1)[OF this, of now ?m] show ?thesis
    by (simp add: eq reply_tracked_def processing_replies_def)
qed

lemma page_step_tracked:
  assumes "reply_tracked p"
  shows "reply_tracked (page_step e p)"
proof (cases e)
  case (SendMessage now body)
  with handleSendMessage_tracked[OF assms, of now body] show ?thesis by simp
next
  case (ClientEvent now b)
  show ?thesis
  proof (cases "wsClient p")
    case None
    with ClientEvent assms show ?thesis by simp
  next
    case (Some c)
    let ?p = "p\<lparr>wsClient := Some (snd (browser_step b c))\<rparr>"
    have "reply_tracked ?p"
      using assms by (simp add: reply_tracked_def processing_replies_def)
    from foldl_callback_tracked[OF this, of now "fst (browser_step b c)"] ClientEvent Some
    show ?thesis by simp
  qed
qed (use assms in \<open>simp_all add: reply_tracked_def processing_replies_def handleBranchCreate_def
       uuid_taken_def handleCancelQueue_def\<close>)

lemma page_run_tracked:
  "reply_tracked p \<Longrightarrow> reply_tracked (page_run evs p)"
proof (induction evs arbitrary: p)
  case Nil
  then show ?case by simp
next
  case (Cons e evs)
  from Cons.IH[OF page_step_tracked[OF Cons.prems, of e]] show ?case by simp
qed

lemma reachable_tracked:
  "reply_tracked (page_run evs (initial_page src))"
  by (rule page_run_tracked) (simp add: reply_tracked_def processing_replies_def initial_page_def)

lemma one_reply_processing:
  "length (processing_replies (page_run evs (initial_page src))) \<le> 1 \<and>
   (processing_replies (page_run evs (initial_page src)) = [] \<or>
    isProcessing (page_run evs (initial_page src)))"
  using reachable_tracked[of evs src] by (auto simp: reply_tracked_def)

subsection \<open>Order of arrival along a run, cancellations included\<close>

lemma page_step_arrival_all:
  assumes "isProcessing p \<or> messageQueue p = []"
  shows "started (page_step e p) @ waiting (page_step e p)
           = started p @ (case e of CancelQueue i \<Rightarrow> filter (\<lambda>j. j \<noteq> i) (waiting p) | _ \<Rightarrow> waiting p)
             @ sent_by e p \<and>
         prefix (started p) (started (page_step e p))"
proof (cases e)
  case (SendMessage now body)
  from handleSendMessage_arrival[OF assms, of now body] SendMessage show ?thesis by simp
next
  case (CancelQueue i)
  then show ?thesis
    by (simp add: handleCancelQueue_def started_def waiting_def filter_map o_def)
next
  case (ClientEvent now b)
  show ?thesis
  proof (cases "wsClient p")
    case None
    with ClientEvent show ?thesis by simp
  next
    case (Some c)
    let ?p = "p\<lparr>wsClient := Some (snd (browser_step b c))\<rparr>"
    have "started ?p = started p" "waiting ?p = waiting p"
      by (simp_all add: started_def waiting_def)
    with foldl_callback_arrival[of now ?p "fst (browser_step b c)"] ClientEvent Some
    show ?thesis by simp
  qed
qed (simp_all add: started_def waiting_def handleBranchCreate_def uuid_taken_def)

lemma page_run_arrival_all:
  assumes "isProcessing p \<or> messageQueue p = []"
  shows "subseq (started (page_run evs p) @ waiting (page_run evs p))
           (started p @ waiting p @ sent_ids evs p) \<and>
         prefix (started p) (started (page_run evs p)) \<and>
         (list_all (\<lambda>e. \<not> is_cancel e) evs \<longrightarrow>
            started (page_run evs p) @ waiting (page_run evs p)
              = started p @ waiting p @ sent_ids evs p)"
  using assms
proof (induction evs arbitrary: p)
  case Nil
  then show ?case by simp
next
  case (Cons e evs)
  let ?q = "page_step e p"
  let ?r = "page_run evs ?q"
  from page_step_arrival_all[OF Cons.prems, of e]
  have step: "started ?q @ waiting ?q
           = started p @ (case e of CancelQueue i \<Rightarrow> filter (\<lambda>j. j \<noteq> i) (waiting p) | _ \<Rightarrow> waiting p)
             @ sent_by e p"
    and pre: "prefix (started p) (started ?q)" by simp_all
  from Cons.IH[OF page_step_idle[OF Cons.prems, of e]]
  have ih: "subseq (started ?r @ waiting ?r) (started ?q @ waiting ?q @ sent_ids evs ?q)"
    and ihp: "prefix (started ?q) (started ?r)"
    and ihe: "list_all (\<lambda>e. \<not> is_cancel e) evs \<longrightarrow>
            started ?r @ waiting ?r = started ?q @ waiting ?q @ sent_ids evs ?q"
    by simp_all
  have "subseq (case e of CancelQueue i \<Rightarrow> filter (\<lambda>j. j \<noteq> i) (waiting p) | _ \<Rightarrow> waiting p) (waiting p)"
    by (cases e) simp_all
  then have "subseq ((started ?q @ waiting ?q) @ sent_ids evs ?q)
               ((started p @ waiting p @ sent_by e p) @ sent_ids evs ?q)"
    unfolding step by (intro list_emb_append_mono) simp_all
  with ih have a: "subseq (started ?r @ waiting ?r) (started p @ waiting p @ sent_ids (e # evs) p)"
    by (auto intro: subseq_order.trans)
  have b: "prefix (started p) (started ?r)"
    using pre ihp by (auto intro: prefix_order.trans)
  have c: "list_all (\<lambda>e. \<not> is_cancel e) (e # evs) \<longrightarrow>
            started ?r @ waiting ?r = started p @ waiting p @ sent_ids (e # evs) p"
  proof
    assume h: "list_all (\<lambda>e. \<not> is_cancel e) (e # evs)"
    then have "\<not> is_cancel e" by simp
    then have "(case e of CancelQueue i \<Rightarrow> filter (\<lambda>j. j \<noteq> i) (waiting p) | _ \<Rightarrow> waiting p) = waiting p"
      by (cases e) simp_all
    with step ihe h show "started ?r @ waiting ?r = started p @ waiting p @ sent_ids (e # evs) p"
      by simp
  qed
  from a b c show ?case by simp
qed


subsection \<open>The messages after a completion\<close>

lemma update_current_messages:
  "messages (update_current f p)
     = map (\<lambda>x. if Some (msg_id x) = currentAssistantMessageId p then f x else x) (messages p)"
  by (cases "currentAssistantMessageId p") (auto simp: update_current_def)

lemma update_current_rest:
  "messageQueue (update_current f p) = messageQueue p \<and>
   wsClient (update_current f p) = wsClient p \<and>
   targetRepoPath (update_current f p) = targetRepoPath p \<and>
   selectedAgent (update_current f p) = selectedAgent p \<and>
   uuidSource (update_current f p) = uuidSource p \<and>
   uuidCalls (update_current f p) = uuidCalls p \<and>
   currentAssistantMessageId (update_current f p) = currentAssistantMessageId p \<and>
   isProcessing (update_current f p) = isProcessing p"
  by (simp add: update_current_def split: option.splits)

lemma next_messages:
  assumes "messageQueue p = q # qs" and "wsClient p = Some c" and "targetRepoPath p \<noteq> []"
  shows "messages (processNextInQueue now p) =
           messages p @
           [\<lparr>msg_id = q_id q, role = User, content = q_content q, timestamp = now,
             elementContext = q_elementContext q, chat_status = Processing\<rparr>,
            \<lparr>msg_id = randomUUID p, role = Assistant, content = [], timestamp = now,
             elementContext = None, chat_status = Processing\<rparr>]"
  using assms
  by (simp add: processNextInQueue_next processMessage_spawn uuid_taken_def randomUUID_def)

lemma exit_line_messages:
  assumes "str_includes ln ''[Process exited with code''" and "messageQueue p = q # qs"
    and "wsClient p = Some c" and "targetRepoPath p \<noteq> []"
  shows "messages (handleWsMessage now p (Output ln err)) =
           map (\<lambda>x. if Some (msg_id x) = currentAssistantMessageId p
                     then x\<lparr>content := content x @ ln @ nl, chat_status := Completed\<rparr> else x)
             (messages p) @
           [\<lparr>msg_id = q_id q, role = User, content = q_content q, timestamp = now,
             elementContext = q_elementContext q, chat_status = Processing\<rparr>,
            \<lparr>msg_id = randomUUID p, role = Assistant, content = [], timestamp = now,
             elementContext = None, chat_status = Processing\<rparr>]"
proof -
  let ?p1 = "update_current (\<lambda>m. m\<lparr>content := content m @ ln @ nl\<rparr>) p"
  let ?p2 = "update_current (\<lambda>m. m\<lparr>chat_status := Completed\<rparr>) ?p1"
  let ?p3 = "?p2\<lparr>currentAssistantMessageId := None, isProcessing := False\<rparr>"
  have r1: "messageQueue ?p3 = q # qs" "wsClient ?p3 = Some c" "targetRepoPath ?p3 \<noteq> []"
    using assms update_current_rest[of "\<lambda>m. m\<lparr>chat_status := Completed\<rparr>" ?p1]
      update_current_rest[of "\<lambda>m. m\<lparr>content := content m @ ln @ nl\<rparr>" p]
    by simp_all
  have uu: "randomUUID ?p3 = randomUUID p"
    using update_current_rest[of "\<lambda>m. m\<lparr>chat_status := Completed\<rparr>" ?p1]
      update_current_rest[of "\<lambda>m. m\<lparr>content := content m @ ln @ nl\<rparr>" p]
    by (simp add: randomUUID_def)
  have m3: "messages ?p3 =
      map (\<lambda>x. if Some (msg_id x) = currentAssistantMessageId p
                then x\<lparr>content := content x @ ln @ nl, chat_status := Completed\<rparr> else x)
        (messages p)"
    using update_current_rest[of "\<lambda>m. m\<lparr>content := content m @ ln @ nl\<rparr>" p]
    by (simp add: update_current_messages o_def cong: if_cong)
  have "handleWsMessage now p (Output ln err) = processNextInQueue now ?p3"
    using assms(1) by (simp add: Let_def)
  with next_messages[OF r1, of now] uu m3 show ?thesis by simp
qed

lemma error_messages:
  assumes "messageQueue p = q # qs" and "wsClient p = Some c" and "targetRepoPath p \<noteq> []"
  shows "messages (handleWsMessage now p (ErrorMessage e)) =
           map (\<lambda>x. if Some (msg_id x) = currentAssistantMessageId p
                     then x\<lparr>content := content x @ nl @ ''Error: '' @ e, chat_status := Failed\<rparr>
                     else x)
             (messages p) @
           [\<lparr>msg_id = q_id q, role = User, content = q_content q, timestamp = now,
             elementContext = q_elementContext q, chat_status = Processing\<rparr>,
            \<lparr>msg_id = randomUUID p, role = Assistant, content = [], timestamp = now,
             elementContext = None, chat_status = Processing\<rparr>]"
proof -
  let ?f = "\<lambda>m. m\<lparr>content := content m @ nl @ ''Error: '' @ e, chat_status := Failed\<rparr>"
  let ?p3 = "(update_current ?f p)\<lparr>currentAssistantMessageId := None, isProcessing := False\<rparr>"
  have r1: "messageQueue ?p3 = q # qs" "wsClient ?p3 = Some c" "targetRepoPath ?p3 \<noteq> []"
    using assms update_current_rest[of ?f p] by simp_all
  have uu: "randomUUID ?p3 = randomUUID p"
    using update_current_rest[of ?f p] by (simp add: randomUUID_def)
  have m3: "messages ?p3 =
      map (\<lambda>x. if Some (msg_id x) = currentAssistantMessageId p then ?f x else x) (messages p)"
    by (simp add: update_current_messages)
  have "handleWsMessage now p (ErrorMessage e) = processNextInQueue now ?p3"
    by simp
  with next_messages[OF r1, of now] uu m3 show ?thesis by simp
qed

lemma completion_idle:
  assumes "is_completion m" and "messageQueue p = []" and "reply_tracked p"
  shows "\<not> isProcessing (handleWsMessage now p m) \<and>
         processing_replies (handleWsMessage now p m) = [] \<and>
         messageQueue (handleWsMessage now p m) = []"
proof (cases m)
  case (Output ln err)
  let ?p1 = "update_current (\<lambda>m. m\<lparr>content := content m @ ln @ nl\<rparr>) p"
  let ?p2 = "update_current (\<lambda>m. m\<lparr>chat_status := Completed\<rparr>) ?p1"
  let ?p3 = "?p2\<lparr>currentAssistantMessageId := None, isProcessing := False\<rparr>"
  have t1: "reply_tracked ?p1"
    by (rule tracked_update_content) (simp_all add: assms)
  have "processing_replies ?p2 = []"
    by (rule replies_update_status) (simp_all add: t1)
  then have r: "processing_replies ?p3 = []"
    by (simp add: processing_replies_def)
  have q: "messageQueue ?p3 = []"
    using assms(2) update_current_rest[of "\<lambda>m. m\<lparr>chat_status := Completed\<rparr>" ?p1]
      update_current_rest[of "\<lambda>m. m\<lparr>content := content m @ ln @ nl\<rparr>" p]
    by simp
  have "handleWsMessage now p m = ?p3"
    using Output assms(1) q by (simp add: Let_def processNextInQueue_empty)
  with r q show ?thesis by simp
next
  case (ErrorMessage e)
  let ?f = "\<lambda>m. m\<lparr>content := content m @ nl @ ''Error: '' @ e, chat_status := Failed\<rparr>"
  let ?p3 = "(update_current ?f p)\<lparr>currentAssistantMessageId := None, isProcessing := False\<rparr>"
  have "processing_replies (update_current ?f p) = []"
    by (rule replies_update_status) (simp_all add: assms)
  then have r: "processing_replies ?p3 = []"
    by (simp add: processing_replies_def)
  have q: "messageQueue ?p3 = []"
    using assms(2) update_current_rest[of ?f p] by simp
  have "handleWsMessage now p m = ?p3"
    using ErrorMessage q by (simp add: processNextInQueue_empty)
  with r q show ?thesis by simp
qed (use assms(1) in simp_all)


text \<open>
  C5, as the code has it. Let \<open>p\<close> be a page reached by any run from the initial page.
  At most one assistant message is in the processing state, and only while the page is
  processing; the spawn requests on the page's sockets are at most one more than the
  completions the server has sent it. A message sent while \<open>p\<close> is processing is appended
  to the end of the queue and nothing else happens to the chat. When a message of the server
  completes the current one (an output line with the exit marker, or an error) and the
  queue is not empty, its head leaves the queue, becomes the last started message, the page
  is processing again and hands the spawn request built from that head to its client; the
  reply that was current gets the line and the status completed (or the error text and the
  status error), and the head and a new reply in the processing state are added after the
  messages. With an empty queue the page stops processing and no reply is left in the
  processing state. Cancelling removes from the queue exactly the entries with the given
  identifier, in place. Along any further run, cancellations included, the started messages
  followed by the waiting ones are a subsequence of what they were followed by the
  identifiers sent since, and the started ones only grow at the end; without a cancellation
  the two sequences are equal. So the messages are processed in the order they arrived.
\<close>

theorem chat_queue_fifo_one_reply:
  assumes "p = page_run before (initial_page src)"
  shows
  "length (processing_replies p) \<le> 1
   \<and> (processing_replies p = [] \<or> isProcessing p)
   \<and> spawns_sent p \<le> completions before + 1
   \<and> (isProcessing p \<longrightarrow>
        handleSendMessage now p body =
          p\<lparr>uuidCalls := Suc (uuidCalls p),
            messageQueue := messageQueue p @
              [\<lparr>q_id = randomUUID p, q_content = body, q_elementContext = selectedElement p,
                queuePosition = length (messageQueue p) + 1\<rparr>],
            selectedElement := None\<rparr>)
   \<and> (is_completion m \<and> messageQueue p = q # qs \<longrightarrow>
        messageQueue (handleWsMessage now p m) = qs \<and>
        isProcessing (handleWsMessage now p m) \<and>
        started (handleWsMessage now p m) = started p @ [q_id q] \<and>
        wsClient (handleWsMessage now p m) =
          Some (or_unchanged (the (wsClient p))
                  (spawnAgent (the (wsClient p))
                     (buildPrompt \<lparr>msg_id = q_id q, role = User, content = q_content q,
                                    timestamp = now, elementContext = q_elementContext q,
                                    chat_status = Processing\<rparr>)
                     (agent_name (selectedAgent p)) (targetRepoPath p))))
   \<and> (str_includes ln ''[Process exited with code'' \<and> messageQueue p = q # qs \<longrightarrow>
        messages (handleWsMessage now p (Output ln err)) =
          map (\<lambda>x. if Some (msg_id x) = currentAssistantMessageId p
                    then x\<lparr>content := content x @ ln @ nl, chat_status := Completed\<rparr> else x)
            (messages p) @
          [\<lparr>msg_id = q_id q, role = User, content = q_content q, timestamp = now,
            elementContext = q_elementContext q, chat_status = Processing\<rparr>,
           \<lparr>msg_id = randomUUID p, role = Assistant, content = [], timestamp = now,
            elementContext = None, chat_status = Processing\<rparr>])
   \<and> (messageQueue p = q # qs \<longrightarrow>
        messages (handleWsMessage now p (ErrorMessage e)) =
          map (\<lambda>x. if Some (msg_id x) = currentAssistantMessageId p
                    then x\<lparr>content := content x @ nl @ ''Error: '' @ e, chat_status := Failed\<rparr>
                    else x)
            (messages p) @
          [\<lparr>msg_id = q_id q, role = User, content = q_content q, timestamp = now,
            elementContext = q_elementContext q, chat_status = Processing\<rparr>,
           \<lparr>msg_id = randomUUID p, role = Assistant, content = [], timestamp = now,
            elementContext = None, chat_status = Processing\<rparr>])
   \<and> (is_completion m \<and> messageQueue p = [] \<longrightarrow>
        \<not> isProcessing (handleWsMessage now p m) \<and>
        processing_replies (handleWsMessage now p m) = [] \<and>
        messageQueue (handleWsMessage now p m) = [])
   \<and> messageQueue (page_step (CancelQueue i) p)
        = filter (\<lambda>x. q_id x \<noteq> i) (messageQueue p)
   \<and> messages (page_step (CancelQueue i) p) = messages p
   \<and> subseq (started (page_run evs p) @ waiting (page_run evs p))
        (started p @ waiting p @ sent_ids evs p)
   \<and> prefix (started p) (started (page_run evs p))
   \<and> (list_all (\<lambda>e. \<not> is_cancel e) evs \<longrightarrow>
        started (page_run evs p) @ waiting (page_run evs p)
          = started p @ waiting p @ sent_ids evs p)"
proof -
  have inv: "(isProcessing p \<or> messageQueue p = []) \<and>
             (isProcessing p \<longrightarrow> wsClient p \<noteq> None \<and> targetRepoPath p \<noteq> [])"
    using reachable_invariants[of before src] assms by simp
  have tracked: "reply_tracked p"
    using reachable_tracked[of before src] assms by simp
  have ready: "messageQueue p = q # qs \<Longrightarrow>
      wsClient p = Some (the (wsClient p)) \<and> targetRepoPath p \<noteq> []"
    using inv by auto
  have one: "length (processing_replies p) \<le> 1 \<and>
      (processing_replies p = [] \<or> isProcessing p)"
    using tracked by (auto simp: reply_tracked_def)
  have out: "spawns_sent p \<le> completions before + 1"
    using one_outstanding[of before src] assms by simp
  have busy: "isProcessing p \<longrightarrow>
      handleSendMessage now p body =
        p\<lparr>uuidCalls := Suc (uuidCalls p),
          messageQueue := messageQueue p @
            [\<lparr>q_id = randomUUID p, q_content = body, q_elementContext = selectedElement p,
              queuePosition = length (messageQueue p) + 1\<rparr>],
          selectedElement := None\<rparr>"
    using send_while_processing[of p now body] by blast
  have following: "is_completion m \<and> messageQueue p = q # qs \<longrightarrow>
        messageQueue (handleWsMessage now p m) = qs \<and>
        isProcessing (handleWsMessage now p m) \<and>
        started (handleWsMessage now p m) = started p @ [q_id q] \<and>
        wsClient (handleWsMessage now p m) =
          Some (or_unchanged (the (wsClient p))
                  (spawnAgent (the (wsClient p))
                     (buildPrompt \<lparr>msg_id = q_id q, role = User, content = q_content q,
                                    timestamp = now, elementContext = q_elementContext q,
                                    chat_status = Processing\<rparr>)
                     (agent_name (selectedAgent p)) (targetRepoPath p)))"
    using completion_starts_next[of m p q qs "the (wsClient p)" now] ready by blast
  have exited: "str_includes ln ''[Process exited with code'' \<and> messageQueue p = q # qs \<longrightarrow>
        messages (handleWsMessage now p (Output ln err)) =
          map (\<lambda>x. if Some (msg_id x) = currentAssistantMessageId p
                    then x\<lparr>content := content x @ ln @ nl, chat_status := Completed\<rparr> else x)
            (messages p) @
          [\<lparr>msg_id = q_id q, role = User, content = q_content q, timestamp = now,
            elementContext = q_elementContext q, chat_status = Processing\<rparr>,
           \<lparr>msg_id = randomUUID p, role = Assistant, content = [], timestamp = now,
            elementContext = None, chat_status = Processing\<rparr>]"
    using exit_line_messages[of ln p q qs "the (wsClient p)" now err] ready by blast
  have failed: "messageQueue p = q # qs \<longrightarrow>
        messages (handleWsMessage now p (ErrorMessage e)) =
          map (\<lambda>x. if Some (msg_id x) = currentAssistantMessageId p
                    then x\<lparr>content := content x @ nl @ ''Error: '' @ e, chat_status := Failed\<rparr>
                    else x)
            (messages p) @
          [\<lparr>msg_id = q_id q, role = User, content = q_content q, timestamp = now,
            elementContext = q_elementContext q, chat_status = Processing\<rparr>,
           \<lparr>msg_id = randomUUID p, role = Assistant, content = [], timestamp = now,
            elementContext = None, chat_status = Processing\<rparr>]"
    using error_messages[of p q qs "the (wsClient p)" now e] ready by blast
  have idle: "is_completion m \<and> messageQueue p = [] \<longrightarrow>
        \<not> isProcessing (handleWsMessage now p m) \<and>
        processing_replies (handleWsMessage now p m) = [] \<and>
        messageQueue (handleWsMessage now p m) = []"
    using completion_idle[of m p now] tracked by blast
  have cancel: "messageQueue (page_step (CancelQueue i) p)
        = filter (\<lambda>x. q_id x \<noteq> i) (messageQueue p) \<and>
      messages (page_step (CancelQueue i) p) = messages p"
    by (simp add: handleCancelQueue_def)
  have fifo: "subseq (started (page_run evs p) @ waiting (page_run evs p))
        (started p @ waiting p @ sent_ids evs p) \<and>
      prefix (started p) (started (page_run evs p)) \<and>
      (list_all (\<lambda>e. \<not> is_cancel e) evs \<longrightarrow>
        started (page_run evs p) @ waiting (page_run evs p)
          = started p @ waiting p @ sent_ids evs p)"
    using page_run_arrival_all[of p evs] inv by blast
  from one out busy following exited failed idle cancel fifo show ?thesis
    by blast
qed


text \<open>The demo run: one message processing, two waiting.\<close>

lemmas page_eval =
  initial_page_def handleBranchCreate_def handleSendMessage_def uuid_taken_def randomUUID_def
  processMessage.simps processNextInQueue.simps update_current_def Let_def
  new_client_def connect_def isConnected_def new_socket_def set_ready_def onopen_def
  onmessage_def spawnAgent_def send_if_open_def socket_send_def or_unchanged_def
  buildPrompt_def started_def waiting_def spawns_sent_def spawn_frames_def completions_def
  demo_page_def demo_events_def demo_uuids_def

lemmas page_eval2 =
  page_eval demo_first_page_def demo_first_events_def handleCancelQueue_def
  processing_replies_def

theorem chat_queue_fifo_one_reply_witness:
  "demo_page = page_run demo_events (initial_page demo_uuids) \<and>
   demo_first_page = page_run demo_first_events (initial_page demo_uuids) \<and>
   isProcessing demo_page \<and>
   length (processing_replies demo_page) = 1 \<and>
   messageQueue (handleSendMessage 4 demo_page ''fourth'') =
     [\<lparr>q_id = ''uuuu'', q_content = ''second'', q_elementContext = None, queuePosition = 1\<rparr>,
      \<lparr>q_id = ''uuuuu'', q_content = ''third'', q_elementContext = None, queuePosition = 2\<rparr>,
      \<lparr>q_id = ''uuuuuu'', q_content = ''fourth'', q_elementContext = None, queuePosition = 3\<rparr>] \<and>
   is_completion (Output ''[Process exited with code 0]'' False) \<and>
   str_includes ''[Process exited with code 0]'' ''[Process exited with code'' \<and>
   messageQueue demo_page =
     [\<lparr>q_id = ''uuuu'', q_content = ''second'', q_elementContext = None, queuePosition = 1\<rparr>,
      \<lparr>q_id = ''uuuuu'', q_content = ''third'', q_elementContext = None, queuePosition = 2\<rparr>] \<and>
   started demo_page = [''uu''] \<and>
   started (handleWsMessage 5 demo_page (Output ''[Process exited with code 0]'' False))
     = [''uu'', ''uuuu''] \<and>
   messageQueue (handleWsMessage 5 demo_page (Output ''[Process exited with code 0]'' False))
     = [\<lparr>q_id = ''uuuuu'', q_content = ''third'', q_elementContext = None, queuePosition = 2\<rparr>] \<and>
   map chat_status
     (messages (handleWsMessage 5 demo_page (Output ''[Process exited with code 0]'' False)))
     = [Processing, Completed, Processing, Processing] \<and>
   map chat_status (messages (handleWsMessage 5 demo_page (ErrorMessage ''no'')))
     = [Processing, Failed, Processing, Processing] \<and>
   messageQueue demo_first_page = [] \<and>
   \<not> isProcessing
       (handleWsMessage 5 demo_first_page (Output ''[Process exited with code 0]'' False)) \<and>
   map q_id (messageQueue (page_step (CancelQueue ''uuuu'') demo_page)) = [''uuuuu''] \<and>
   sent_ids
     [SendMessage 4 ''fourth'', CancelQueue ''uuuuu'',
      ClientEvent 5 (SocketMessage 0 (Some (Output ''[Process exited with code 0]'' False))),
      ClientEvent 6 (SocketMessage 0 (Some (ErrorMessage ''no'')))] demo_page = [''uuuuuu''] \<and>
   started (page_run
     [SendMessage 4 ''fourth'', CancelQueue ''uuuuu'',
      ClientEvent 5 (SocketMessage 0 (Some (Output ''[Process exited with code 0]'' False))),
      ClientEvent 6 (SocketMessage 0 (Some (ErrorMessage ''no'')))] demo_page)
     = [''uu'', ''uuuu'', ''uuuuuu''] \<and>
   list_all (\<lambda>e. \<not> is_cancel e)
     [SendMessage 4 ''fourth'',
      ClientEvent 5 (SocketMessage 0 (Some (Output ''[Process exited with code 0]'' False)))] \<and>
   started (page_run
     [SendMessage 4 ''fourth'',
      ClientEvent 5 (SocketMessage 0 (Some (Output ''[Process exited with code 0]'' False)))]
     demo_page) = [''uu'', ''uuuu''] \<and>
   waiting (page_run
     [SendMessage 4 ''fourth'',
      ClientEvent 5 (SocketMessage 0 (Some (Output ''[Process exited with code 0]'' False)))]
     demo_page) = [''uuuuu'', ''uuuuuu'']"
  using
    chat_queue_fifo_one_reply
      [where p = demo_page and before = demo_events and src = demo_uuids
         and now = 5 and body = "''fourth''"
         and m = "Output ''[Process exited with code 0]'' False"
         and ln = "''[Process exited with code 0]''" and err = False and e = "''no''"
         and q = "\<lparr>q_id = ''uuuu'', q_content = ''second'', q_elementContext = None,
                    queuePosition = 1\<rparr>"
         and qs = "[\<lparr>q_id = ''uuuuu'', q_content = ''third'', q_elementContext = None,
                     queuePosition = 2\<rparr>]"
         and i = "''uuuu''"
         and evs = "[SendMessage 4 ''fourth'', CancelQueue ''uuuuu'',
                     ClientEvent 5 (SocketMessage 0
                       (Some (Output ''[Process exited with code 0]'' False))),
                     ClientEvent 6 (SocketMessage 0 (Some (ErrorMessage ''no'')))]"]
    chat_queue_fifo_one_reply
      [where p = demo_page and before = demo_events and src = demo_uuids
         and evs = "[SendMessage 4 ''fourth'',
                     ClientEvent 5 (SocketMessage 0
                       (Some (Output ''[Process exited with code 0]'' False)))]"]
    chat_queue_fifo_one_reply
      [where p = demo_first_page and before = demo_first_events and src = demo_uuids
         and now = 5 and m = "Output ''[Process exited with code 0]'' False"]
  by (simp add: page_eval2)

text \<open>
  C5 as stated fails: once the first message is sent, the user message and the assistant
  reply created for it are both in the processing state.
\<close>

theorem two_messages_processing_at_once:
  "isProcessing demo_first_page \<and>
   map role (messages demo_first_page) = [User, Assistant] \<and>
   map chat_status (messages demo_first_page) = [Processing, Processing] \<and>
   \<not> length (filter (\<lambda>m. chat_status m = Processing) (messages demo_first_page)) \<le> 1"
  by (simp add: page_eval2)

text \<open>
  After the completion the reply is completed and the page is idle, but the user message
  is still in the processing state: nothing in the page ever changes the status of a user
  message.
\<close>

lemma user_message_stays_processing:
  "\<not> isProcessing
       (handleWsMessage 5 demo_first_page (Output ''[Process exited with code 0]'' False)) \<and>
   map role
     (messages (handleWsMessage 5 demo_first_page
                  (Output ''[Process exited with code 0]'' False))) = [User, Assistant] \<and>
   map chat_status
     (messages (handleWsMessage 5 demo_first_page
                  (Output ''[Process exited with code 0]'' False))) = [Processing, Completed]"
  by (simp add: page_eval2)

end
